theory Spec2Isabelle
  imports Complex_Main
begin

section \<open>Data model\<close>

text \<open>
  The report engine of the Rate Comparison Analysis wizard (the component
  \<^verbatim>\<open>StepDataVisualization\<close>) and the snapshot loader \<^verbatim>\<open>loadWizardState\<close>.

  JavaScript numbers are modelled as \<^typ>\<open>real\<close>: rounding, infinities and the
  sign of zero are not represented. Where the source can produce \<^verbatim>\<open>NaN\<close>
  the model uses \<^typ>\<open>real option\<close> with \<open>None\<close> for \<^verbatim>\<open>NaN\<close>. An optional
  field (\<^verbatim>\<open>number | null | undefined\<close>) is an \<open>option\<close> as well.
  Strings are byte strings; whitespace and letter case are those of ASCII.

  The declarations of \<^verbatim>\<open>@/types/rca\<close> are not part of the sources at hand; the
  records below carry exactly the fields the component reads. Field names are
  the source's, with a suffix where two records share a name and
  \<open>size_label\<close> for \<^verbatim>\<open>RateRecord.size\<close>.
\<close>

record RateRecord =
  storeId :: nat
  size_label :: string
  driveUp :: bool
  elevator :: bool
  outdoorAccess :: bool
  climateControlled :: bool
  humidityControlled :: bool
  date :: "int option"
  walkInPrice :: "real option"
  onlinePrice :: "real option"

text \<open>
  \<open>date\<close> is the time value of \<^verbatim>\<open>new Date(r.date)\<close> in milliseconds, \<open>None\<close> for an
  invalid date. \<open>size_label\<close> is \<^verbatim>\<open>record.size || ''\<close>, so a missing size is the empty
  string. Store identifiers are non-negative integers below \<open>2^32 - 1\<close>, the keys a
  JavaScript object enumerates in ascending order.
\<close>

record FeatureCode =
  originalTag :: string
  code :: string

record Store =
  storeId_store :: nat
  storeName_store :: string
  distance_store :: real

record StoreMetadata =
  yearBuilt_meta :: "real option"
  squareFootage_meta :: "real option"

type_synonym StoreRankings = "string \<Rightarrow> real option"

record AdjustmentFactors =
  captiveMarketPremium :: "real option"
  lossToLease :: "real option"
  ccAdj :: "real option"

record Props =
  subjectStore :: "Store option"
  selectedStores :: "Store list"
  storeMetadata :: "nat \<Rightarrow> StoreMetadata option"
  storeRankings :: "nat \<Rightarrow> StoreRankings option"
  adjustmentFactors :: AdjustmentFactors
  rateRecords :: "RateRecord list"
  customNames :: "nat \<Rightarrow> string option"
  featureCodes :: "FeatureCode list"

text \<open>
  The four window starts are computed in the source from the system clock with
  \<^verbatim>\<open>setMonth\<close>; here they are inputs, as time values in milliseconds.
\<close>

record WindowStarts =
  t12Start :: int
  t6Start :: int
  t3Start :: int
  t1Start :: int

record Averages =
  t12Asking :: "real option"
  t12AskingAdj :: "real option"
  t12InStore :: "real option"
  t6Asking :: "real option"
  t6AskingAdj :: "real option"
  t6InStore :: "real option"
  t3Asking :: "real option"
  t3AskingAdj :: "real option"
  t3InStore :: "real option"
  t1Asking :: "real option"
  t1AskingAdj :: "real option"
  t1InStore :: "real option"

text \<open>An element of \<^verbatim>\<open>GroupedData.stores\<close>: the twelve figures and the store's own fields.\<close>

record StoreRow = Averages +
  storeId_row :: nat
  storeName :: string
  distance :: real
  yearBuilt :: "real option"
  squareFootage :: "real option"
  isSubject :: bool
  adjustment :: real
  recordCount :: nat

record GroupedData =
  size_group :: string
  featureCode :: string
  stores :: "StoreRow list"
  averages :: Averages
  marketShare :: real

section \<open>JavaScript primitives\<close>

text \<open>\<^verbatim>\<open>v || d\<close> on an optional number: the default replaces a missing value and zero.\<close>

definition numOr :: "real option \<Rightarrow> real \<Rightarrow> real" where
  "numOr v d = (case v of None \<Rightarrow> d | Some x \<Rightarrow> if x = 0 then d else x)"

text \<open>\<^verbatim>\<open>v || null\<close> on an optional number.\<close>

definition numOrNull :: "real option \<Rightarrow> real option" where
  "numOrNull v = (case v of None \<Rightarrow> None | Some x \<Rightarrow> if x = 0 then None else Some x)"

text \<open>Truthiness of an optional number, as \<^verbatim>\<open>filter(r => r.onlinePrice)\<close> tests it.\<close>

definition truthy :: "real option \<Rightarrow> bool" where
  "truthy v = (case v of None \<Rightarrow> False | Some x \<Rightarrow> x \<noteq> 0)"

text \<open>\<^verbatim>\<open>a || b\<close> on an optional string: the empty string is falsy.\<close>

definition strOr :: "string option \<Rightarrow> string \<Rightarrow> string" where
  "strOr a b = (case a of None \<Rightarrow> b | Some s \<Rightarrow> if s = [] then b else s)"

text \<open>Arithmetic on numbers that may be \<^verbatim>\<open>NaN\<close>.\<close>

definition mulN :: "real option \<Rightarrow> real option \<Rightarrow> real option" where
  "mulN a b = (case (a, b) of (Some x, Some y) \<Rightarrow> Some (x * y) | _ \<Rightarrow> None)"

definition subN :: "real option \<Rightarrow> real option \<Rightarrow> real option" where
  "subN a b = (case (a, b) of (Some x, Some y) \<Rightarrow> Some (x - y) | _ \<Rightarrow> None)"

text \<open>\<^verbatim>\<open>String.prototype.toLowerCase\<close> on ASCII letters.\<close>

definition toLowerChar :: "char \<Rightarrow> char" where
  "toLowerChar c =
     (case map_of (zip ''ABCDEFGHIJKLMNOPQRSTUVWXYZ'' ''abcdefghijklmnopqrstuvwxyz'') c of
        Some l \<Rightarrow> l
      | None \<Rightarrow> c)"

definition toLowerCase :: "string \<Rightarrow> string" where
  "toLowerCase s = map toLowerChar s"

text \<open>The class \<^verbatim>\<open>\s\<close>: space, tab, line feed, vertical tab, form feed, carriage return.\<close>

definition isSpace :: "char \<Rightarrow> bool" where
  "isSpace c = (c \<in> set [CHR '' '', CHR 0x09, CHR 0x0A, CHR 0x0B, CHR 0x0C, CHR 0x0D])"

definition isDigit :: "char \<Rightarrow> bool" where
  "isDigit c = (c \<in> set ''0123456789'')"

definition digitVal :: "char \<Rightarrow> nat" where
  "digitVal c = length (takeWhile (\<lambda>d. d \<noteq> c) ''0123456789'')"

definition digitsVal :: "string \<Rightarrow> nat" where
  "digitsVal ds = foldl (\<lambda>n c. 10 * n + digitVal c) 0 ds"

text \<open>
  \<^verbatim>\<open>s.split(/\s+/)\<close>: the pieces between maximal runs of whitespace. A run at the
  start or at the end of the string leaves an empty piece there, and the empty string
  splits into one empty piece.
\<close>

function splitWs :: "string \<Rightarrow> string \<Rightarrow> string list" where
  "splitWs cur [] = [cur]"
| "splitWs cur (c # cs) =
     (if isSpace c then cur # splitWs [] (dropWhile isSpace cs)
      else splitWs (cur @ [c]) cs)"
  by pat_completeness auto
termination
  by (relation "measure (\<lambda>(cur, s). length s)")
     (auto simp: le_imp_less_Suc length_dropWhile_le)

text \<open>\<^verbatim>\<open>s.split('|')\<close> for a one-character separator.\<close>

fun splitOn :: "char \<Rightarrow> string \<Rightarrow> string list" where
  "splitOn sep [] = [[]]"
| "splitOn sep (c # cs) =
     (if c = sep then [] # splitOn sep cs
      else (case splitOn sep cs of
              p # ps \<Rightarrow> (c # p) # ps
            | [] \<Rightarrow> [[c]]))"

text \<open>\<^verbatim>\<open>Array.prototype.join\<close> on an array of strings.\<close>

fun join :: "string \<Rightarrow> string list \<Rightarrow> string" where
  "join sep [] = []"
| "join sep [p] = p"
| "join sep (p # q # ps) = p @ sep @ join sep (q # ps)"

text \<open>
  The exponent part of a decimal literal: \<open>e\<close> or \<open>E\<close>, an optional sign and at
  least one digit; anything else is no exponent.
\<close>

definition exponentPart :: "string \<Rightarrow> int" where
  "exponentPart t =
     (case t of
        [] \<Rightarrow> 0
      | c # r \<Rightarrow>
          if c = CHR ''e'' \<or> c = CHR ''E'' then
            (let (neg, r1) =
                   (case r of
                      [] \<Rightarrow> (False, r)
                    | s # r' \<Rightarrow>
                        if s = CHR ''-'' then (True, r')
                        else if s = CHR ''+'' then (False, r')
                        else (False, r));
                 ds = takeWhile isDigit r1
             in if ds = [] then 0
                else if neg then - int (digitsVal ds) else int (digitsVal ds))
          else 0)"

text \<open>
  \<^verbatim>\<open>parseFloat\<close>: leading whitespace is skipped and the longest prefix that is a
  decimal literal is read; \<open>None\<close> is \<^verbatim>\<open>NaN\<close>. The literal \<^verbatim>\<open>Infinity\<close> is not
  read: the one caller lower-cases its argument first.
\<close>

definition parseFloat :: "string \<Rightarrow> real option" where
  "parseFloat s =
     (let t = dropWhile isSpace s;
          (sg, t1) =
            (case t of
               [] \<Rightarrow> (1, t)
             | c # r \<Rightarrow>
                 if c = CHR ''-'' then (- 1, r)
                 else if c = CHR ''+'' then (1, r)
                 else (1, t));
          ip = takeWhile isDigit t1;
          t2 = dropWhile isDigit t1;
          (fp, t3) =
            (case t2 of
               [] \<Rightarrow> ([], t2)
             | c # r \<Rightarrow>
                 if c = CHR ''.'' then (takeWhile isDigit r, dropWhile isDigit r)
                 else ([], t2))
      in if ip = [] \<and> fp = [] then None
         else
           (let m = real (digitsVal ip) + real (digitsVal fp) / 10 ^ length fp;
                ex = exponentPart t3
            in Some (sg * (if 0 \<le> ex then m * 10 ^ nat ex else m / 10 ^ nat (- ex)))))"

text \<open>
  \<^verbatim>\<open>Array.prototype.sort\<close> with a comparator. The sort is stable, and a comparator
  result of \<^verbatim>\<open>NaN\<close> counts as zero. The model inserts each element, from the last to
  the first, before the first element it does not compare greater than; for a
  comparator that orders the elements consistently this is the one stable sorted
  arrangement.
\<close>

definition sortCompare :: "('a \<Rightarrow> 'a \<Rightarrow> real option) \<Rightarrow> 'a \<Rightarrow> 'a \<Rightarrow> real" where
  "sortCompare comparefn x y = (case comparefn x y of None \<Rightarrow> 0 | Some v \<Rightarrow> v)"

fun insertBy :: "('a \<Rightarrow> 'a \<Rightarrow> real option) \<Rightarrow> 'a \<Rightarrow> 'a list \<Rightarrow> 'a list" where
  "insertBy comparefn x [] = [x]"
| "insertBy comparefn x (y # ys) =
     (if sortCompare comparefn x y \<le> 0 then x # y # ys
      else y # insertBy comparefn x ys)"

definition sortBy :: "('a \<Rightarrow> 'a \<Rightarrow> real option) \<Rightarrow> 'a list \<Rightarrow> 'a list" where
  "sortBy comparefn xs = foldr (insertBy comparefn) xs []"

section \<open>The report engine\<close>

subsection \<open>Feature codes\<close>

text \<open>The first half of \<^verbatim>\<open>getFeatureCode\<close>: the two pushes onto \<^verbatim>\<open>parts\<close>.\<close>

definition tagParts :: "RateRecord \<Rightarrow> string list" where
  "tagParts record =
     (let parts = [];
          parts = parts @ [if driveUp record then ''Drive-Up''
                           else if elevator record then ''Elevator''
                           else if outdoorAccess record then ''Outdoor''
                           else ''Ground Level''];
          parts = parts @ [if climateControlled record then ''Climate Controlled''
                           else if humidityControlled record then ''Humidity Controlled''
                           else ''Non-Climate'']
      in parts)"

definition featureTag :: "RateRecord \<Rightarrow> string" where
  "featureTag record = join '' / '' (tagParts record)"

definition getFeatureCode :: "FeatureCode list \<Rightarrow> RateRecord \<Rightarrow> string" where
  "getFeatureCode fcs record =
     (let tag = featureTag record in
      case find (\<lambda>f. originalTag f = tag) fcs of
        Some fc \<Rightarrow> code fc
      | None \<Rightarrow>
          (let isClimate = climateControlled record in
           if driveUp record then (if isClimate then ''DUCC'' else ''DU'')
           else if elevator record then (if isClimate then ''ECC'' else ''ENCC'')
           else (if isClimate then ''GLCC'' else ''GNCC'')))"

subsection \<open>Adjustment factors\<close>

definition totalAdjustment :: "AdjustmentFactors \<Rightarrow> real" where
  "totalAdjustment af =
     numOr (captiveMarketPremium af) 0 + numOr (lossToLease af) 0 + numOr (ccAdj af) 0"

definition rankingCategories :: "string list" where
  "rankingCategories =
     [''Location'', ''Age'', ''Accessibility'', ''VPD'', ''Visibility & Signage'',
      ''Brand'', ''Quality'', ''Size'']"

definition getStoreAdjustment :: "Props \<Rightarrow> nat \<Rightarrow> real" where
  "getStoreAdjustment props sid =
     (case subjectStore props of
        None \<Rightarrow> 0
      | Some subject \<Rightarrow>
          if sid = storeId_store subject then 0
          else
            (case (storeRankings props (storeId_store subject), storeRankings props sid) of
               (Some subjectRankings, Some compRankings) \<Rightarrow>
                 (let adjustment = totalAdjustment (adjustmentFactors props) / 100;
                      totalDiff =
                        foldl (\<lambda>totalDiff cat.
                                 (let subjectVal = numOr (subjectRankings cat) 5;
                                      compVal = numOr (compRankings cat) 5
                                  in totalDiff + (subjectVal - compVal)))
                              0 rankingCategories
                  in adjustment + (totalDiff / real (length rankingCategories)) * 0.01)
             | _ \<Rightarrow> totalAdjustment (adjustmentFactors props) / 100))"

subsection \<open>Window averages\<close>

record WindowAverage =
  inStore :: "real option"
  asking :: "real option"

definition inWindow :: "int \<Rightarrow> RateRecord \<Rightarrow> bool" where
  "inWindow startDate r = (case date r of None \<Rightarrow> False | Some d \<Rightarrow> startDate \<le> d)"

definition calcAverages :: "RateRecord list \<Rightarrow> int \<Rightarrow> WindowAverage" where
  "calcAverages records startDate =
     (let filtered = filter (inWindow startDate) records;
          walkIn = map (\<lambda>r. the (walkInPrice r)) (filter (\<lambda>r. truthy (walkInPrice r)) filtered);
          online = map (\<lambda>r. the (onlinePrice r)) (filter (\<lambda>r. truthy (onlinePrice r)) filtered)
      in \<lparr>inStore = (if length walkIn > 0
                      then Some (foldl (\<lambda>a b. a + b) 0 walkIn / real (length walkIn))
                      else None),
          asking = (if length online > 0
                     then Some (foldl (\<lambda>a b. a + b) 0 online / real (length online))
                     else None)\<rparr>)"

subsection \<open>Sizes\<close>

definition DEFAULT_UNIT_SIZES :: "string list" where
  "DEFAULT_UNIT_SIZES = [''5x5'', ''5x10'', ''10x10'', ''10x15'', ''10x20'', ''10x25'', ''10x30'']"

definition normalizeSize :: "string \<Rightarrow> string" where
  "normalizeSize s =
     filter (\<lambda>c. c \<noteq> CHR 0x27) (filter (\<lambda>c. \<not> isSpace c) (toLowerCase s))"

text \<open>
  \<^verbatim>\<open>parseSize\<close>. Neither \<^verbatim>\<open>parseFloat\<close> nor the product throws, so the
  \<^verbatim>\<open>catch\<close> branch of the source is never taken and has no counterpart here.
\<close>

definition parseSize :: "string \<Rightarrow> real option" where
  "parseSize sizeStr =
     (let parts =
            splitWs []
              (filter (\<lambda>c. c \<noteq> CHR 0x27)
                 (map (\<lambda>c. if c = CHR ''x'' then CHR '' '' else c) (toLowerCase sizeStr)))
      in case parts of
           p0 # p1 # _ \<Rightarrow> mulN (parseFloat p0) (parseFloat p1)
         | [p0] \<Rightarrow> Some (numOr (parseFloat p0) 0)
         | [] \<Rightarrow> Some 0)"

subsection \<open>Grouping\<close>

text \<open>
  \<^verbatim>\<open>groups\<close> is an object of objects. The outer object enumerates its keys in
  insertion order (a group key holds a \<open>|\<close> and is never an integer key), the
  inner one in ascending order of the store identifier.
\<close>

type_synonym StoreRecords = "(nat \<times> RateRecord list) list"

fun pushStore :: "nat \<Rightarrow> RateRecord \<Rightarrow> StoreRecords \<Rightarrow> StoreRecords" where
  "pushStore k r [] = [(k, [r])]"
| "pushStore k r ((k', rs) # m) =
     (if k = k' then (k', rs @ [r]) # m
      else if k < k' then (k, [r]) # (k', rs) # m
      else (k', rs) # pushStore k r m)"

fun pushGroup :: "string \<Rightarrow> RateRecord \<Rightarrow> (string \<times> StoreRecords) list
                    \<Rightarrow> (string \<times> StoreRecords) list" where
  "pushGroup key r [] = [(key, pushStore (storeId r) r [])]"
| "pushGroup key r ((key', m) # gs) =
     (if key = key' then (key', pushStore (storeId r) r m) # gs
      else (key', m) # pushGroup key r gs)"

definition allowed :: "string list \<Rightarrow> RateRecord \<Rightarrow> bool" where
  "allowed selectedSizes record =
     (normalizeSize (size_label record) \<in> set (map normalizeSize selectedSizes))"

definition addRecord :: "string list \<Rightarrow> FeatureCode list \<Rightarrow> (string \<times> StoreRecords) list
                           \<Rightarrow> RateRecord \<Rightarrow> (string \<times> StoreRecords) list" where
  "addRecord selectedSizes fcs groups record =
     (if \<not> allowed selectedSizes record then groups
      else
        (let featureCode = getFeatureCode fcs record;
             groupKey = size_label record @ ''|'' @ featureCode
         in pushGroup groupKey record groups))"

definition buildGroups :: "string list \<Rightarrow> FeatureCode list \<Rightarrow> RateRecord list
                             \<Rightarrow> (string \<times> StoreRecords) list" where
  "buildGroups selectedSizes fcs records = foldl (addRecord selectedSizes fcs) [] records"

subsection \<open>Rows and groups\<close>

text \<open>\<^verbatim>\<open>t.asking ? t.asking * (1 + adjustment) : null\<close>.\<close>

definition adjusted :: "real option \<Rightarrow> real \<Rightarrow> real option" where
  "adjusted a adj = (if truthy a then Some (the a * (1 + adj)) else None)"

definition storeRow :: "Props \<Rightarrow> WindowStarts \<Rightarrow> nat \<times> RateRecord list \<Rightarrow> StoreRow" where
  "storeRow props ws entry =
     (let sid = fst entry;
          records = snd entry;
          store = find (\<lambda>s. storeId_store s = sid) (selectedStores props);
          metadata = storeMetadata props sid;
          adj = getStoreAdjustment props sid;
          t12 = calcAverages records (t12Start ws);
          t6 = calcAverages records (t6Start ws);
          t3 = calcAverages records (t3Start ws);
          t1 = calcAverages records (t1Start ws)
      in \<lparr>t12Asking = asking t12,
          t12AskingAdj = adjusted (asking t12) adj,
          t12InStore = inStore t12,
          t6Asking = asking t6,
          t6AskingAdj = adjusted (asking t6) adj,
          t6InStore = inStore t6,
          t3Asking = asking t3,
          t3AskingAdj = adjusted (asking t3) adj,
          t3InStore = inStore t3,
          t1Asking = asking t1,
          t1AskingAdj = adjusted (asking t1) adj,
          t1InStore = inStore t1,
          storeId_row = sid,
          storeName = strOr (customNames props sid)
                        (strOr (map_option storeName_store store) ''Unknown''),
          distance = numOr (map_option distance_store store) 0,
          yearBuilt = numOrNull (Option.bind metadata yearBuilt_meta),
          squareFootage = numOrNull (Option.bind metadata squareFootage_meta),
          isSubject = (case subjectStore props of
                         None \<Rightarrow> False
                       | Some subject \<Rightarrow> storeId_store subject = sid),
          adjustment = adj,
          recordCount = length records\<rparr>)"

text \<open>The comparator of \<^verbatim>\<open>storeData.sort\<close>.\<close>

definition compareRows :: "StoreRow \<Rightarrow> StoreRow \<Rightarrow> real option" where
  "compareRows a b =
     (if isSubject a then Some (- 1)
      else if isSubject b then Some 1
      else Some (distance a - distance b))"

text \<open>
  \<^verbatim>\<open>const [size, featureCode] = groupKey.split('|')\<close>: the first two pieces. A group
  key always holds a \<open>|\<close>, so there are at least two.
\<close>

definition splitKey :: "string \<Rightarrow> string \<times> string" where
  "splitKey groupKey =
     (case splitOn (CHR ''|'') groupKey of
        s # f # _ \<Rightarrow> (s, f)
      | [s] \<Rightarrow> (s, [])
      | [] \<Rightarrow> ([], []))"

definition buildGroup :: "Props \<Rightarrow> WindowStarts \<Rightarrow> nat \<Rightarrow> string \<times> StoreRecords
                            \<Rightarrow> GroupedData" where
  "buildGroup props ws totalRecords entry =
     (let groupKey = fst entry;
          storeRecords = snd entry;
          (size, fc) = splitKey groupKey;
          storeData = map (storeRow props ws) storeRecords;
          storeData = sortBy compareRows storeData;
          allGroupRecords = concat (map snd storeRecords);
          t12Avg = calcAverages allGroupRecords (t12Start ws);
          t6Avg = calcAverages allGroupRecords (t6Start ws);
          t3Avg = calcAverages allGroupRecords (t3Start ws);
          t1Avg = calcAverages allGroupRecords (t1Start ws);
          groupRecordCount = length allGroupRecords;
          share = (real groupRecordCount / real totalRecords) * 100
      in \<lparr>size_group = size,
          featureCode = fc,
          stores = storeData,
          averages = \<lparr>t12Asking = asking t12Avg, t12AskingAdj = None,
                       t12InStore = inStore t12Avg,
                       t6Asking = asking t6Avg, t6AskingAdj = None,
                       t6InStore = inStore t6Avg,
                       t3Asking = asking t3Avg, t3AskingAdj = None,
                       t3InStore = inStore t3Avg,
                       t1Asking = asking t1Avg, t1AskingAdj = None,
                       t1InStore = inStore t1Avg\<rparr>,
          marketShare = share\<rparr>)"

text \<open>
  The comparator of \<^verbatim>\<open>result.sort\<close>. \<^verbatim>\<open>localeCompare\<close> depends on the host's
  collation and is a parameter. A \<^verbatim>\<open>NaN\<close> difference is not \<open>0\<close> and is returned
  as it is.
\<close>

definition compareGroups :: "(string \<Rightarrow> string \<Rightarrow> int) \<Rightarrow> GroupedData \<Rightarrow> GroupedData
                               \<Rightarrow> real option" where
  "compareGroups localeCompare a b =
     (let sizeCompare = subN (parseSize (size_group a)) (parseSize (size_group b))
      in if sizeCompare \<noteq> Some 0 then sizeCompare
         else Some (real_of_int (localeCompare (featureCode a) (featureCode b))))"

definition groupedData :: "Props \<Rightarrow> string list \<Rightarrow> WindowStarts \<Rightarrow> (string \<Rightarrow> string \<Rightarrow> int)
                             \<Rightarrow> GroupedData list" where
  "groupedData props selectedSizes ws localeCompare =
     (if length (rateRecords props) = 0 then []
      else
        (let groups = buildGroups selectedSizes (featureCodes props) (rateRecords props);
             totalRecords = length (rateRecords props);
             result = map (buildGroup props ws totalRecords) groups
         in sortBy (compareGroups localeCompare) result))"

section \<open>The snapshot store\<close>

text \<open>
  \<^verbatim>\<open>localStorage\<close> is a map from keys to strings whose operations do not throw.
  \<^verbatim>\<open>JSON.parse\<close> is a parameter: it returns the snapshot as the source types it,
  \<^verbatim>\<open>StoredState\<close>, or \<open>None\<close> where parsing the string or reading the fields of
  the parsed value throws and control passes to the \<^verbatim>\<open>catch\<close> branch. The clock
  \<^verbatim>\<open>Date.now()\<close> is the parameter \<open>now\<close>, in milliseconds. The result is the
  value returned, \<open>None\<close> for \<^verbatim>\<open>null\<close>, and the storage left behind.
\<close>

record 'st StoredState =
  version :: string
  timestamp :: int
  state :: 'st

definition STORAGE_KEY :: string where
  "STORAGE_KEY = ''rca-wizard-state''"

definition STORAGE_VERSION :: string where
  "STORAGE_VERSION = ''1.0''"

definition clearWizardState :: "(string \<Rightarrow> string option) \<Rightarrow> (string \<Rightarrow> string option)" where
  "clearWizardState ls = ls(STORAGE_KEY := None)"

definition loadWizardState ::
  "(string \<Rightarrow> 'st StoredState option) \<Rightarrow> int \<Rightarrow> (string \<Rightarrow> string option)
     \<Rightarrow> 'st option \<times> (string \<Rightarrow> string option)" where
  "loadWizardState JSON_parse now ls =
     (case ls STORAGE_KEY of
        None \<Rightarrow> (None, ls)
      | Some stored \<Rightarrow>
          if stored = [] then (None, ls)
          else
            (case JSON_parse stored of
               None \<Rightarrow> (None, ls)
             | Some parsed \<Rightarrow>
                 if version parsed \<noteq> STORAGE_VERSION then (None, clearWizardState ls)
                 else
                   (let sevenDaysInMs = 7 * 24 * 60 * 60 * 1000
                    in if now - timestamp parsed > sevenDaysInMs
                       then (None, clearWizardState ls)
                       else (Some (state parsed), ls))))"

section \<open>The specification's wording\<close>

text \<open>
  The tag as the specification words it: two single-pick priority chains over
  the five flags, joined by \<open>'' / ''\<close>.
\<close>

fun spec_access :: "bool \<Rightarrow> bool \<Rightarrow> bool \<Rightarrow> string" where
  "spec_access True _ _ = ''Drive-Up''"
| "spec_access False True _ = ''Elevator''"
| "spec_access False False True = ''Outdoor''"
| "spec_access False False False = ''Ground Level''"

fun spec_climate :: "bool \<Rightarrow> bool \<Rightarrow> string" where
  "spec_climate True _ = ''Climate Controlled''"
| "spec_climate False True = ''Humidity Controlled''"
| "spec_climate False False = ''Non-Climate''"

definition spec_tag :: "bool \<Rightarrow> bool \<Rightarrow> bool \<Rightarrow> bool \<Rightarrow> bool \<Rightarrow> string" where
  "spec_tag du el out cc hc = spec_access du el out @ '' / '' @ spec_climate cc hc"

text \<open>The fallback table of the specification, keyed by access and climate control.\<close>

definition spec_fallback :: "bool \<Rightarrow> bool \<Rightarrow> bool \<Rightarrow> string" where
  "spec_fallback du el cc =
     (if du then (if cc then ''DUCC'' else ''DU'')
      else if el then (if cc then ''ECC'' else ''ENCC'')
      else (if cc then ''GLCC'' else ''GNCC''))"

text \<open>
  The adjustment factor as the specification words it: a missing component of the
  adjustment factors counts as \<open>0\<close>, a missing category score counts as \<open>5\<close>, and
  a score that is present is taken as it is.
\<close>

definition missingAs5 :: "StoreRankings \<Rightarrow> string \<Rightarrow> real" where
  "missingAs5 rk cat = (case rk cat of None \<Rightarrow> 5 | Some v \<Rightarrow> v)"

definition spec_baseAdjustment :: "AdjustmentFactors \<Rightarrow> real" where
  "spec_baseAdjustment af =
     ((case captiveMarketPremium af of None \<Rightarrow> 0 | Some v \<Rightarrow> v) +
      (case lossToLease af of None \<Rightarrow> 0 | Some v \<Rightarrow> v) +
      (case ccAdj af of None \<Rightarrow> 0 | Some v \<Rightarrow> v)) / 100"

definition spec_storeAdjustment :: "Props \<Rightarrow> Store \<Rightarrow> nat \<Rightarrow> real" where
  "spec_storeAdjustment props subject sid =
     (if sid = storeId_store subject then 0
      else
        (case (storeRankings props (storeId_store subject), storeRankings props sid) of
           (Some sr, Some cr) \<Rightarrow>
             spec_baseAdjustment (adjustmentFactors props) +
             0.01 * ((\<Sum>cat \<leftarrow> rankingCategories. missingAs5 sr cat - missingAs5 cr cat) / 8)
         | _ \<Rightarrow> spec_baseAdjustment (adjustmentFactors props)))"

text \<open>
  The score the source uses: \<^verbatim>\<open>rankings[cat] || 5\<close> replaces a score of \<open>0\<close>
  as well as a missing one.
\<close>

definition zeroAs5 :: "StoreRankings \<Rightarrow> string \<Rightarrow> real" where
  "zeroAs5 rk cat = (case rk cat of None \<Rightarrow> 5 | Some v \<Rightarrow> if v = 0 then 5 else v)"

section \<open>Vocabulary of the properties\<close>

text \<open>
  The four trailing windows, and the three figures of a window read from a row or
  from a group's averages.
\<close>

datatype window = T12 | T6 | T3 | T1

fun windowStart :: "WindowStarts \<Rightarrow> window \<Rightarrow> int" where
  "windowStart ws T12 = t12Start ws"
| "windowStart ws T6 = t6Start ws"
| "windowStart ws T3 = t3Start ws"
| "windowStart ws T1 = t1Start ws"

fun askingOf :: "window \<Rightarrow> 'a Averages_scheme \<Rightarrow> real option" where
  "askingOf T12 a = t12Asking a"
| "askingOf T6 a = t6Asking a"
| "askingOf T3 a = t3Asking a"
| "askingOf T1 a = t1Asking a"

fun askingAdjOf :: "window \<Rightarrow> 'a Averages_scheme \<Rightarrow> real option" where
  "askingAdjOf T12 a = t12AskingAdj a"
| "askingAdjOf T6 a = t6AskingAdj a"
| "askingAdjOf T3 a = t3AskingAdj a"
| "askingAdjOf T1 a = t1AskingAdj a"

fun inStoreOf :: "window \<Rightarrow> 'a Averages_scheme \<Rightarrow> real option" where
  "inStoreOf T12 a = t12InStore a"
| "inStoreOf T6 a = t6InStore a"
| "inStoreOf T3 a = t3InStore a"
| "inStoreOf T1 a = t1InStore a"

text \<open>
  A record with every zero price removed.
\<close>

definition zeroAsAbsent :: "RateRecord \<Rightarrow> RateRecord" where
  "zeroAsAbsent r =
     r\<lparr>walkInPrice := numOrNull (walkInPrice r), onlinePrice := numOrNull (onlinePrice r)\<rparr>"

text \<open>
  The number of observations of a group, read from its rows, and of an entry of
  \<^verbatim>\<open>groups\<close>.
\<close>

definition groupCount :: "GroupedData \<Rightarrow> nat" where
  "groupCount g = sum_list (map recordCount (stores g))"

definition entryCount :: "string \<times> StoreRecords \<Rightarrow> nat" where
  "entryCount e = length (concat (map snd (snd e)))"

text \<open>
  Invariants of \<^verbatim>\<open>groups\<close>: each inner object lists its stores in strictly
  ascending order, and every record it holds is one of the input.
\<close>

definition keysAscending :: "(string \<times> StoreRecords) list \<Rightarrow> bool" where
  "keysAscending gs = (\<forall>e \<in> set gs. sorted_wrt (<) (map fst (snd e)))"

definition groupRecords :: "(string \<times> StoreRecords) list \<Rightarrow> RateRecord set" where
  "groupRecords gs = (\<Union>e \<in> set gs. \<Union>se \<in> set (snd e). set (snd se))"

text \<open>
  The order of the rows of a group: no row after the first is the subject's, and
  the rows of the other stores are in non-decreasing order of distance.
\<close>

definition rowsOrdered :: "StoreRow list \<Rightarrow> bool" where
  "rowsOrdered rows =
     ((\<forall>row \<in> set (tl rows). \<not> isSubject row) \<and>
      sorted (map distance (filter (\<lambda>row. \<not> isSubject row) rows)))"

text \<open>
  The key under which an observation is grouped, and the observations of the input
  that pass the size filter and carry a given key, in input order.
\<close>

definition groupKeyOf :: "FeatureCode list \<Rightarrow> RateRecord \<Rightarrow> string" where
  "groupKeyOf fcs record = size_label record @ ''|'' @ getFeatureCode fcs record"

definition groupObservations ::
  "string list \<Rightarrow> FeatureCode list \<Rightarrow> RateRecord list \<Rightarrow> string \<Rightarrow> RateRecord list" where
  "groupObservations S fcs rs key = filter (\<lambda>r. allowed S r \<and> groupKeyOf fcs r = key) rs"

text \<open>
  The distance of a store as the selected stores list it, \<open>0\<close> for a store that is
  not listed.
\<close>

definition storeDistance :: "Props \<Rightarrow> nat \<Rightarrow> real" where
  "storeDistance props sid =
     (case find (\<lambda>s. storeId_store s = sid) (selectedStores props) of
        None \<Rightarrow> 0
      | Some s \<Rightarrow> distance_store s)"

text \<open>
  The records \<^verbatim>\<open>groups[key][sid]\<close>, empty where there is no such entry; and the
  invariant that no group is without stores and no store without records.
\<close>

definition recordsAt :: "(string \<times> StoreRecords) list \<Rightarrow> string \<Rightarrow> nat \<Rightarrow> RateRecord list" where
  "recordsAt gs key sid =
     (case map_of gs key of
        None \<Rightarrow> []
      | Some m \<Rightarrow> (case map_of m sid of None \<Rightarrow> [] | Some recs \<Rightarrow> recs))"

definition entriesFilled :: "(string \<times> StoreRecords) list \<Rightarrow> bool" where
  "entriesFilled gs = (\<forall>e \<in> set gs. snd e \<noteq> [] \<and> (\<forall>se \<in> set (snd e). snd se \<noteq> []))"

section \<open>Example inputs\<close>

text \<open>
  Comparison by code unit, standing in for \<^verbatim>\<open>localeCompare\<close> in the examples: the
  two agree in the root collation on strings of digits and upper-case ASCII letters.
\<close>

fun asciiCompare :: "string \<Rightarrow> string \<Rightarrow> int" where
  "asciiCompare [] [] = 0"
| "asciiCompare [] (y # ys) = - 1"
| "asciiCompare (x # xs) [] = 1"
| "asciiCompare (x # xs) (y # ys) =
     (if (of_char x :: nat) < of_char y then - 1
      else if (of_char y :: nat) < of_char x then 1
      else asciiCompare xs ys)"

text \<open>
  A report over three stores: the subject \<open>S\<close> (identifier 10), \<open>A\<close> (20, two
  miles away) and \<open>B\<close> (30, one mile away), with a base adjustment of five per cent.
  Every example record is drive-up and climate controlled. Times are small integers
  and the windows start at \<open>-12\<close>, \<open>-6\<close>, \<open>-3\<close> and \<open>-1\<close>.
\<close>

definition ex_record :: "nat \<Rightarrow> string \<Rightarrow> int \<Rightarrow> real option \<Rightarrow> RateRecord" where
  "ex_record sid sz d online =
     \<lparr>storeId = sid, size_label = sz, driveUp = True, elevator = False,
      outdoorAccess = False, climateControlled = True, humidityControlled = False,
      date = Some d, walkInPrice = None, onlinePrice = online\<rparr>"

definition ex_ws :: WindowStarts where
  "ex_ws = \<lparr>t12Start = - 12, t6Start = - 6, t3Start = - 3, t1Start = - 1\<rparr>"

definition ex_subject :: Store where
  "ex_subject = \<lparr>storeId_store = 10, storeName_store = ''S'', distance_store = 0\<rparr>"

definition ex_rankings :: "nat \<Rightarrow> StoreRankings option" where
  "ex_rankings sid =
     (if sid = 10 then Some (\<lambda>cat. if cat = ''Location'' then Some 0 else None)
      else if sid = 20 then Some (\<lambda>cat. None)
      else None)"

definition ex_props :: "RateRecord list \<Rightarrow> Props" where
  "ex_props records =
     \<lparr>subjectStore = Some ex_subject,
      selectedStores = [ex_subject,
                        \<lparr>storeId_store = 20, storeName_store = ''A'', distance_store = 2\<rparr>,
                        \<lparr>storeId_store = 30, storeName_store = ''B'', distance_store = 1\<rparr>],
      storeMetadata = (\<lambda>sid. None),
      storeRankings = ex_rankings,
      adjustmentFactors = \<lparr>captiveMarketPremium = Some 5, lossToLease = None, ccAdj = Some 0\<rparr>,
      rateRecords = records,
      customNames = (\<lambda>sid. None),
      featureCodes = []\<rparr>"

definition ex_records :: "RateRecord list" where
  "ex_records =
     [ex_record 20 ''10x10'' (- 2) (Some 100),
      ex_record 20 ''10x10'' (- 5) (Some 120),
      ex_record 30 ''10x10'' 0 (Some 90),
      ex_record 10 ''10x10'' 0 (Some 150),
      ex_record 30 ''7x7'' 0 (Some 80)]"

definition ex_entry :: "string \<times> StoreRecords" where
  "ex_entry =
     (''10x10|DUCC'',
      [(10, [ex_record 10 ''10x10'' 0 (Some 150)]),
       (20, [ex_record 20 ''10x10'' (- 2) (Some 100), ex_record 20 ''10x10'' (- 5) (Some 120)]),
       (30, [ex_record 30 ''10x10'' 0 (Some 90)])])"

text \<open>Two prices of one store with the mean zero, and a size with a space in front.\<close>

definition cex_records :: "RateRecord list" where
  "cex_records = [ex_record 20 ''10x10'' 0 (Some 5), ex_record 20 ''10x10'' 0 (Some (- 5))]"

definition bug_records :: "RateRecord list" where
  "bug_records = [ex_record 20 ''10x10'' 0 (Some 100), ex_record 20 '' 5x5'' 0 (Some 50)]"

text \<open>A parser that knows a current snapshot \<open>A\<close> and a snapshot \<open>B\<close> of an older version.\<close>

definition ex_parse :: "string \<Rightarrow> nat StoredState option" where
  "ex_parse s =
     (if s = ''A'' then Some \<lparr>version = ''1.0'', timestamp = 1000, state = 7\<rparr>
      else if s = ''B'' then Some \<lparr>version = ''0.9'', timestamp = 1000, state = 8\<rparr>
      else None)"

definition ex_ls :: "string \<Rightarrow> string \<Rightarrow> string option" where
  "ex_ls s = Map.empty(STORAGE_KEY \<mapsto> s)"

section \<open>Auxiliary facts\<close>

subsection \<open>Sorting\<close>

lemma set_insertBy: "set (insertBy cmp x ys) = insert x (set ys)"
  by (induction ys) auto

lemma sortBy_Nil: "sortBy cmp [] = []"
  by (simp add: sortBy_def)

lemma sortBy_Cons: "sortBy cmp (x # xs) = insertBy cmp x (sortBy cmp xs)"
  by (simp add: sortBy_def)

lemma sortBy_single: "sortBy cmp [x] = [x]"
  by (simp add: sortBy_def)

lemma set_sortBy: "set (sortBy cmp xs) = set xs"
  by (induction xs) (simp_all add: sortBy_def set_insertBy)

lemma sum_list_insertBy:
  "sum_list (map f (insertBy cmp x ys)) = f x + sum_list (map f ys)"
  for f :: "'a \<Rightarrow> 'b::comm_monoid_add"
  by (induction ys) (simp_all add: add.left_commute)

lemma sum_list_sortBy:
  "sum_list (map f (sortBy cmp xs)) = sum_list (map f xs)"
  for f :: "'a \<Rightarrow> 'b::comm_monoid_add"
  by (induction xs) (simp_all add: sortBy_Nil sortBy_Cons sum_list_insertBy)

subsection \<open>Window averages\<close>

lemma storeRow_asking:
  "askingOf w (storeRow props ws (sid, records)) = asking (calcAverages records (windowStart ws w))"
  by (cases w) (simp_all add: storeRow_def Let_def)

lemma storeRow_inStore:
  "inStoreOf w (storeRow props ws (sid, records)) = inStore (calcAverages records (windowStart ws w))"
  by (cases w) (simp_all add: storeRow_def Let_def)

lemma storeRow_askingAdj:
  "askingAdjOf w (storeRow props ws (sid, records)) =
     adjusted (asking (calcAverages records (windowStart ws w))) (getStoreAdjustment props sid)"
  by (cases w) (simp_all add: storeRow_def Let_def)

lemma calc_asking_None:
  assumes "\<forall>r \<in> set records. inWindow start r \<longrightarrow> \<not> truthy (onlinePrice r)"
  shows "asking (calcAverages records start) = None"
proof -
  have "filter (\<lambda>r. truthy (onlinePrice r)) (filter (inWindow start) records) = []"
    using assms by (simp add: filter_empty_conv)
  then show ?thesis by (simp add: calcAverages_def Let_def)
qed

lemma calc_inStore_None:
  assumes "\<forall>r \<in> set records. inWindow start r \<longrightarrow> \<not> truthy (walkInPrice r)"
  shows "inStore (calcAverages records start) = None"
proof -
  have "filter (\<lambda>r. truthy (walkInPrice r)) (filter (inWindow start) records) = []"
    using assms by (simp add: filter_empty_conv)
  then show ?thesis by (simp add: calcAverages_def Let_def)
qed

lemma truthy_numOrNull: "truthy (numOrNull v) = truthy v"
  by (simp add: truthy_def numOrNull_def split: option.splits)

lemma the_numOrNull: "truthy v \<Longrightarrow> the (numOrNull v) = the v"
  by (simp add: truthy_def numOrNull_def split: option.splits)

lemma inWindow_zeroAsAbsent: "inWindow start (zeroAsAbsent r) = inWindow start r"
  by (simp add: inWindow_def zeroAsAbsent_def)

lemma calcAverages_zeroAsAbsent:
  "calcAverages (map zeroAsAbsent records) start = calcAverages records start"
proof -
  have w: "map (\<lambda>r. the (walkInPrice r))
             (filter (\<lambda>r. truthy (walkInPrice r)) (filter (inWindow start) (map zeroAsAbsent records)))
         = map (\<lambda>r. the (walkInPrice r))
             (filter (\<lambda>r. truthy (walkInPrice r)) (filter (inWindow start) records))"
    by (induction records)
       (simp_all add: inWindow_zeroAsAbsent, simp_all add: zeroAsAbsent_def truthy_numOrNull the_numOrNull)
  have o: "map (\<lambda>r. the (onlinePrice r))
             (filter (\<lambda>r. truthy (onlinePrice r)) (filter (inWindow start) (map zeroAsAbsent records)))
         = map (\<lambda>r. the (onlinePrice r))
             (filter (\<lambda>r. truthy (onlinePrice r)) (filter (inWindow start) records))"
    by (induction records)
       (simp_all add: inWindow_zeroAsAbsent, simp_all add: zeroAsAbsent_def truthy_numOrNull the_numOrNull)
  show ?thesis
    unfolding calcAverages_def Let_def w o ..
qed

lemma foldl_plus_sum: "foldl (\<lambda>a b. a + b) a xs = a + sum_list xs" for a :: real
  by (induction xs arbitrary: a) simp_all

lemma sum_list_positive: "xs \<noteq> [] \<Longrightarrow> \<forall>x \<in> set xs. 0 < x \<Longrightarrow> 0 < sum_list xs" for xs :: "real list"
  by (induction xs) (auto intro: add_pos_nonneg sum_list_nonneg less_imp_le)

lemma asking_positive:
  assumes "\<forall>r \<in> set records. \<forall>p. onlinePrice r = Some p \<longrightarrow> 0 \<le> p"
    and "asking (calcAverages records start) = Some a"
  shows "0 < a"
proof -
  let ?online = "map (\<lambda>r. the (onlinePrice r))
                   (filter (\<lambda>r. truthy (onlinePrice r)) (filter (inWindow start) records))"
  from assms(2) have ne: "?online \<noteq> []"
    and a: "a = sum_list ?online / real (length ?online)"
    by (auto simp: calcAverages_def Let_def foldl_plus_sum split: if_splits)
  have "\<forall>x \<in> set ?online. 0 < x"
    using assms(1) by (fastforce simp: truthy_def split: option.splits)
  with ne have "0 < sum_list ?online" by (rule sum_list_positive)
  moreover from ne have "0 < real (length ?online)" by simp
  ultimately show ?thesis unfolding a by (rule divide_pos_pos)
qed

subsection \<open>Adjustment factors\<close>

lemma numOr_zero: "numOr v 0 = (case v of None \<Rightarrow> 0 | Some x \<Rightarrow> x)"
  by (simp add: numOr_def split: option.splits)

lemma totalAdjustment_base: "totalAdjustment af / 100 = spec_baseAdjustment af"
  by (simp add: totalAdjustment_def spec_baseAdjustment_def numOr_zero)

lemma foldl_diff_sum:
  "foldl (\<lambda>totalDiff cat. totalDiff + (f cat - g cat)) a cats
     = a + (\<Sum>cat \<leftarrow> cats. f cat - g cat)" for a :: real
  by (induction cats arbitrary: a) simp_all

lemma numOr_5: "numOr (rk cat) 5 = zeroAs5 rk cat"
  by (simp add: numOr_def zeroAs5_def)

lemma length_rankingCategories: "length rankingCategories = 8"
  by (simp add: rankingCategories_def)

subsection \<open>Grouping\<close>

lemma count_pushStore:
  "length (concat (map snd (pushStore k r m))) = Suc (length (concat (map snd m)))"
  by (induction m) auto

lemma count_pushGroup:
  "sum_list (map entryCount (pushGroup key r gs)) = Suc (sum_list (map entryCount gs))"
  by (induction gs) (auto simp: entryCount_def count_pushStore)

lemma count_addRecord:
  "sum_list (map entryCount (addRecord S fcs gs r))
     = sum_list (map entryCount gs) + (if allowed S r then 1 else 0)"
  by (simp add: addRecord_def Let_def count_pushGroup)

lemma count_foldl_addRecord:
  "sum_list (map entryCount (foldl (addRecord S fcs) gs rs))
     = sum_list (map entryCount gs) + length (filter (allowed S) rs)"
  by (induction rs arbitrary: gs) (simp_all add: count_addRecord)

lemma count_buildGroups:
  "sum_list (map entryCount (buildGroups S fcs rs)) = length (filter (allowed S) rs)"
  by (simp add: buildGroups_def count_foldl_addRecord)

lemma keys_pushStore: "fst ` set (pushStore k r m) = insert k (fst ` set m)"
  by (induction k r m rule: pushStore.induct) (auto split: if_splits)

lemma sorted_pushStore:
  "sorted_wrt (<) (map fst m) \<Longrightarrow> sorted_wrt (<) (map fst (pushStore k r m))"
proof (induction m)
  case Nil
  then show ?case by simp
next
  case (Cons e m)
  obtain k' rs where e: "e = (k', rs)" by (cases e)
  from Cons.prems have above: "\<forall>x \<in> fst ` set m. k' < x" and rest: "sorted_wrt (<) (map fst m)"
    by (simp_all add: e)
  show ?case
  proof (cases "k = k'")
    case True
    with Cons.prems show ?thesis by (simp add: e)
  next
    case False
    show ?thesis
    proof (cases "k < k'")
      case True
      with above rest show ?thesis by (auto simp: e)
    next
      case ge: False
      with False have "k' < k" by simp
      with above have "\<forall>x \<in> fst ` set (pushStore k r m). k' < x"
        by (simp only: keys_pushStore) simp
      with False ge Cons.IH [OF rest] show ?thesis by (simp add: e)
    qed
  qed
qed

lemma keysAscending_pushGroup:
  "keysAscending gs \<Longrightarrow> keysAscending (pushGroup key r gs)"
  by (induction key r gs rule: pushGroup.induct)
     (auto simp: keysAscending_def sorted_pushStore split: if_splits)

lemma keysAscending_addRecord:
  "keysAscending gs \<Longrightarrow> keysAscending (addRecord S fcs gs r)"
  by (simp add: addRecord_def Let_def keysAscending_pushGroup)

lemma keysAscending_foldl:
  "keysAscending gs \<Longrightarrow> keysAscending (foldl (addRecord S fcs) gs rs)"
  by (induction rs arbitrary: gs) (simp_all add: keysAscending_addRecord)

lemma keysAscending_buildGroups: "keysAscending (buildGroups S fcs rs)"
  unfolding buildGroups_def
  by (rule keysAscending_foldl) (simp add: keysAscending_def)

lemma distinct_keys_buildGroups:
  "e \<in> set (buildGroups S fcs rs) \<Longrightarrow> distinct (map fst (snd e))"
  using keysAscending_buildGroups [of S fcs rs]
  by (auto simp: keysAscending_def strict_sorted_iff)

lemma records_pushStore:
  "(\<Union>se \<in> set (pushStore k r m). set (snd se)) = insert r (\<Union>se \<in> set m. set (snd se))"
  by (induction k r m rule: pushStore.induct) auto

lemma records_pushGroup: "groupRecords (pushGroup key r gs) = insert r (groupRecords gs)"
  by (induction key r gs rule: pushGroup.induct)
     (auto simp: groupRecords_def records_pushStore)

lemma records_addRecord: "groupRecords (addRecord S fcs gs r) \<subseteq> insert r (groupRecords gs)"
  by (auto simp: addRecord_def Let_def records_pushGroup)

lemma records_foldl:
  "groupRecords (foldl (addRecord S fcs) gs rs) \<subseteq> groupRecords gs \<union> set rs"
proof (induction rs arbitrary: gs)
  case Nil
  then show ?case by simp
next
  case (Cons r rs)
  have "groupRecords (foldl (addRecord S fcs) (addRecord S fcs gs r) rs)
          \<subseteq> groupRecords (addRecord S fcs gs r) \<union> set rs"
    by (rule Cons.IH)
  also have "\<dots> \<subseteq> insert r (groupRecords gs) \<union> set rs"
    using records_addRecord [of S fcs gs r] by blast
  finally show ?case by auto
qed

lemma records_buildGroups:
  assumes "e \<in> set (buildGroups S fcs rs)" "se \<in> set (snd e)"
  shows "set (snd se) \<subseteq> set rs"
proof -
  have "set (snd se) \<subseteq> groupRecords (buildGroups S fcs rs)"
    using assms by (auto simp: groupRecords_def)
  also have "\<dots> \<subseteq> set rs"
    using records_foldl [of S fcs "[]" rs] by (simp add: buildGroups_def groupRecords_def)
  finally show ?thesis .
qed

lemma map_of_pushStore:
  "sorted_wrt (<) (map fst m) \<Longrightarrow>
   map_of (pushStore k r m) s =
     (if s = k then Some ((case map_of m k of None \<Rightarrow> [] | Some rs \<Rightarrow> rs) @ [r])
      else map_of m s)"
proof (induction m)
  case Nil
  then show ?case by simp
next
  case (Cons e m)
  obtain k' rs where e: "e = (k', rs)" by (cases e)
  from Cons.prems have above: "\<forall>x \<in> fst ` set m. k' < x" and rest: "sorted_wrt (<) (map fst m)"
    by (simp_all add: e)
  consider (eq) "k = k'" | (lt) "k < k'" | (gt) "k' < k" by fastforce
  then show ?case
  proof cases
    case eq
    then show ?thesis by (simp add: e)
  next
    case lt
    with above have "k \<notin> fst ` set m" by fastforce
    then have "map_of m k = None" by (simp add: map_of_eq_None_iff)
    with lt show ?thesis by (auto simp: e)
  next
    case gt
    with Cons.IH [OF rest] show ?thesis by (auto simp: e)
  qed
qed

lemma map_of_pushGroup:
  "map_of (pushGroup key r gs) k =
     (if k = key
      then Some (pushStore (storeId r) r (case map_of gs key of None \<Rightarrow> [] | Some m \<Rightarrow> m))
      else map_of gs k)"
  by (induction key r gs rule: pushGroup.induct) auto

lemma keys_pushGroup: "fst ` set (pushGroup key r gs) = insert key (fst ` set gs)"
  by (induction key r gs rule: pushGroup.induct) (auto split: if_splits)

lemma distinct_pushGroup:
  "distinct (map fst gs) \<Longrightarrow> distinct (map fst (pushGroup key r gs))"
proof (induction key r gs rule: pushGroup.induct)
  case (1 key r)
  then show ?case by simp
next
  case (2 key r key' m gs)
  show ?case
  proof (cases "key = key'")
    case True
    with "2.prems" show ?thesis by simp
  next
    case False
    with "2.prems" have "key' \<notin> fst ` set (pushGroup key r gs)"
      by (simp add: keys_pushGroup)
    with False "2.IH" "2.prems" show ?thesis by simp
  qed
qed

lemma pushStore_filled: "pushStore k r m \<noteq> []"
  by (induction k r m rule: pushStore.induct) (auto split: if_splits)

lemma pushStore_recs_filled:
  "\<forall>se \<in> set m. snd se \<noteq> [] \<Longrightarrow> \<forall>se \<in> set (pushStore k r m). snd se \<noteq> []"
  by (induction k r m rule: pushStore.induct) auto

lemma entriesFilled_pushGroup: "entriesFilled gs \<Longrightarrow> entriesFilled (pushGroup key r gs)"
  by (induction key r gs rule: pushGroup.induct)
     (auto simp: entriesFilled_def pushStore_filled dest: pushStore_recs_filled [rule_format, rotated]
        split: if_splits)

lemma entriesFilled_addRecord: "entriesFilled gs \<Longrightarrow> entriesFilled (addRecord S fcs gs r)"
  by (simp add: addRecord_def Let_def entriesFilled_pushGroup)

lemma entriesFilled_foldl:
  "entriesFilled gs \<Longrightarrow> entriesFilled (foldl (addRecord S fcs) gs rs)"
  by (induction rs arbitrary: gs) (simp_all add: entriesFilled_addRecord)

lemma entriesFilled_buildGroups: "entriesFilled (buildGroups S fcs rs)"
  unfolding buildGroups_def
  by (rule entriesFilled_foldl) (simp add: entriesFilled_def)

lemma distinct_addRecord:
  "distinct (map fst gs) \<Longrightarrow> distinct (map fst (addRecord S fcs gs r))"
  by (simp add: addRecord_def Let_def distinct_pushGroup)

lemma distinct_foldl:
  "distinct (map fst gs) \<Longrightarrow> distinct (map fst (foldl (addRecord S fcs) gs rs))"
  by (induction rs arbitrary: gs) (simp_all add: distinct_addRecord)

lemma distinct_buildGroups: "distinct (map fst (buildGroups S fcs rs))"
  unfolding buildGroups_def by (rule distinct_foldl) simp

lemma recordsAt_pushGroup:
  assumes "keysAscending gs"
  shows "recordsAt (pushGroup key r gs) k s =
           recordsAt gs k s @ (if k = key \<and> s = storeId r then [r] else [])"
proof (cases "k = key")
  case False
  then show ?thesis by (simp add: recordsAt_def map_of_pushGroup)
next
  case True
  let ?m = "case map_of gs key of None \<Rightarrow> [] | Some m \<Rightarrow> m"
  have "sorted_wrt (<) (map fst ?m)"
  proof (cases "map_of gs key")
    case None
    then show ?thesis by simp
  next
    case (Some m)
    then have "(key, m) \<in> set gs" by (rule map_of_SomeD)
    with assms Some show ?thesis by (auto simp: keysAscending_def)
  qed
  then have "map_of (pushStore (storeId r) r ?m) s =
      (if s = storeId r then Some ((case map_of ?m (storeId r) of None \<Rightarrow> [] | Some rs \<Rightarrow> rs) @ [r])
       else map_of ?m s)"
    by (rule map_of_pushStore)
  with True show ?thesis
    by (auto simp: recordsAt_def map_of_pushGroup split: option.splits)
qed

lemma recordsAt_addRecord:
  assumes "keysAscending gs"
  shows "recordsAt (addRecord S fcs gs r) k s =
           recordsAt gs k s
             @ filter (\<lambda>r. allowed S r \<and> groupKeyOf fcs r = k \<and> storeId r = s) [r]"
  using recordsAt_pushGroup [OF assms]
  by (auto simp: addRecord_def Let_def groupKeyOf_def)

lemma recordsAt_foldl:
  "keysAscending gs \<Longrightarrow>
   recordsAt (foldl (addRecord S fcs) gs rs) k s =
     recordsAt gs k s @ filter (\<lambda>r. allowed S r \<and> groupKeyOf fcs r = k \<and> storeId r = s) rs"
proof (induction rs arbitrary: gs)
  case Nil
  then show ?case by simp
next
  case (Cons r rs)
  have "keysAscending (addRecord S fcs gs r)"
    using Cons.prems by (rule keysAscending_addRecord)
  from Cons.IH [OF this] recordsAt_addRecord [OF Cons.prems, of S fcs r k s]
  show ?case by simp
qed

lemma recordsAt_buildGroups:
  "recordsAt (buildGroups S fcs rs) k s =
     filter (\<lambda>r. storeId r = s) (groupObservations S fcs rs k)"
proof -
  have "keysAscending []" by (simp add: keysAscending_def)
  from recordsAt_foldl [OF this, of S fcs rs k s] show ?thesis
    by (simp add: buildGroups_def recordsAt_def groupObservations_def conj_commute conj_left_commute)
qed

lemma entry_records:
  assumes e: "(key, m) \<in> set (buildGroups S fcs rs)" and se: "(sid, recs) \<in> set m"
  shows "recs = filter (\<lambda>r. storeId r = sid) (groupObservations S fcs rs key)" "recs \<noteq> []"
proof -
  have "map_of (buildGroups S fcs rs) key = Some m"
    using e distinct_buildGroups by (simp add: map_of_is_SomeI)
  moreover have "distinct (map fst m)"
    using distinct_keys_buildGroups [OF e] by simp
  with se have "map_of m sid = Some recs" by (simp add: map_of_is_SomeI)
  ultimately have "recordsAt (buildGroups S fcs rs) key sid = recs"
    by (simp add: recordsAt_def)
  then show "recs = filter (\<lambda>r. storeId r = sid) (groupObservations S fcs rs key)"
    by (simp add: recordsAt_buildGroups)
  from entriesFilled_buildGroups [of S fcs rs] e se show "recs \<noteq> []"
    by (fastforce simp: entriesFilled_def)
qed

lemma entry_stores:
  assumes e: "(key, m) \<in> set (buildGroups S fcs rs)"
  shows "fst ` set m = storeId ` set (groupObservations S fcs rs key)"
proof
  show "fst ` set m \<subseteq> storeId ` set (groupObservations S fcs rs key)"
  proof
    fix sid assume "sid \<in> fst ` set m"
    then obtain recs where se: "(sid, recs) \<in> set m" by auto
    from entry_records [OF e se]
    have "filter (\<lambda>r. storeId r = sid) (groupObservations S fcs rs key) \<noteq> []"
      by simp
    then obtain r where "r \<in> set (groupObservations S fcs rs key)" "storeId r = sid"
      by (auto simp: filter_empty_conv)
    then show "sid \<in> storeId ` set (groupObservations S fcs rs key)" by blast
  qed
next
  show "storeId ` set (groupObservations S fcs rs key) \<subseteq> fst ` set m"
  proof
    fix sid assume "sid \<in> storeId ` set (groupObservations S fcs rs key)"
    then have "filter (\<lambda>r. storeId r = sid) (groupObservations S fcs rs key) \<noteq> []"
      by (auto simp: filter_empty_conv)
    then have ne: "recordsAt (buildGroups S fcs rs) key sid \<noteq> []"
      by (simp add: recordsAt_buildGroups)
    have "map_of (buildGroups S fcs rs) key = Some m"
      using e distinct_buildGroups by (simp add: map_of_is_SomeI)
    with ne obtain recs where "map_of m sid = Some recs"
      by (auto simp: recordsAt_def split: option.splits)
    then have "(sid, recs) \<in> set m" by (rule map_of_SomeD)
    then show "sid \<in> fst ` set m" by force
  qed
qed

lemma entry_of_record:
  assumes "r \<in> set rs" "allowed S r"
  shows "\<exists>m. (groupKeyOf fcs r, m) \<in> set (buildGroups S fcs rs)"
proof -
  from assms have "filter (\<lambda>x. storeId x = storeId r)
                     (groupObservations S fcs rs (groupKeyOf fcs r)) \<noteq> []"
    by (auto simp: filter_empty_conv groupObservations_def)
  then have "recordsAt (buildGroups S fcs rs) (groupKeyOf fcs r) (storeId r) \<noteq> []"
    by (simp only: recordsAt_buildGroups) simp
  then obtain m where "map_of (buildGroups S fcs rs) (groupKeyOf fcs r) = Some m"
    by (auto simp: recordsAt_def split: option.splits)
  then have "(groupKeyOf fcs r, m) \<in> set (buildGroups S fcs rs)" by (rule map_of_SomeD)
  then show ?thesis ..
qed

subsection \<open>Rows and groups\<close>

lemma stores_buildGroup:
  "stores (buildGroup props ws n e) = sortBy compareRows (map (storeRow props ws) (snd e))"
  by (simp add: buildGroup_def Let_def split: prod.splits)

lemma size_buildGroup: "size_group (buildGroup props ws n (key, m)) = fst (splitKey key)"
  by (simp add: buildGroup_def Let_def split: prod.splits)

lemma marketShare_buildGroup:
  "marketShare (buildGroup props ws n e) = real (entryCount e) / real n * 100"
  by (simp add: buildGroup_def Let_def entryCount_def split: prod.splits)

lemma recordCount_storeRow: "recordCount (storeRow props ws se) = length (snd se)"
  by (simp add: storeRow_def Let_def)

lemma isSubject_storeRow:
  "isSubject (storeRow props ws se) =
     (case subjectStore props of None \<Rightarrow> False | Some subject \<Rightarrow> storeId_store subject = fst se)"
  by (simp add: storeRow_def Let_def)

lemma storeId_storeRow: "storeId_row (storeRow props ws se) = fst se"
  by (simp add: storeRow_def Let_def)

lemma adjustment_storeRow: "adjustment (storeRow props ws se) = getStoreAdjustment props (fst se)"
  by (simp add: storeRow_def Let_def)

lemma groupCount_buildGroup: "groupCount (buildGroup props ws n e) = entryCount e"
  by (simp add: groupCount_def stores_buildGroup sum_list_sortBy entryCount_def
        length_concat comp_def recordCount_storeRow)

lemma groupedData_nonempty:
  "rateRecords props \<noteq> [] \<Longrightarrow>
   groupedData props S ws lc =
     sortBy (compareGroups lc)
       (map (buildGroup props ws (length (rateRecords props)))
          (buildGroups S (featureCodes props) (rateRecords props)))"
  by (simp add: groupedData_def Let_def)

lemma groupedData_empty: "rateRecords props = [] \<Longrightarrow> groupedData props S ws lc = []"
  by (simp add: groupedData_def)

lemma groupedData_member:
  assumes "g \<in> set (groupedData props S ws lc)"
  shows "\<exists>e \<in> set (buildGroups S (featureCodes props) (rateRecords props)).
           g = buildGroup props ws (length (rateRecords props)) e"
proof (cases "rateRecords props = []")
  case True
  with assms show ?thesis by (simp add: groupedData_empty)
next
  case False
  with assms show ?thesis by (auto simp: groupedData_nonempty set_sortBy)
qed

lemma groupedData_row:
  assumes "g \<in> set (groupedData props S ws lc)" "row \<in> set (stores g)"
  shows "\<exists>sid records. row = storeRow props ws (sid, records) \<and>
           set records \<subseteq> set (rateRecords props)"
proof -
  from assms(1) obtain e where e: "e \<in> set (buildGroups S (featureCodes props) (rateRecords props))"
    and g: "g = buildGroup props ws (length (rateRecords props)) e"
    using groupedData_member by blast
  from assms(2) obtain se where se: "se \<in> set (snd e)" "row = storeRow props ws se"
    by (auto simp: g stores_buildGroup set_sortBy)
  from records_buildGroups [OF e se(1)] se(2) show ?thesis
    by (intro exI [of _ "fst se"] exI [of _ "snd se"]) simp
qed

lemma sum_list_share:
  "(\<Sum>e \<leftarrow> es. real (c e) / n * 100) = real (\<Sum>e \<leftarrow> es. c e) / n * 100"
  by (induction es) (simp_all add: add_divide_distrib distrib_right)

lemma one_subject_row:
  "distinct (map fst m) \<Longrightarrow> length (filter isSubject (map (storeRow props ws) m)) \<le> 1"
proof (induction m)
  case Nil
  then show ?case by simp
next
  case (Cons e m)
  show ?case
  proof (cases "isSubject (storeRow props ws e)")
    case True
    then obtain subject where s: "subjectStore props = Some subject" "storeId_store subject = fst e"
      by (auto simp: isSubject_storeRow split: option.splits)
    have "\<not> isSubject (storeRow props ws e')" if "e' \<in> set m" for e'
      using that Cons.prems s by (auto simp: isSubject_storeRow)
    then have "filter isSubject (map (storeRow props ws) m) = []"
      by (auto simp: filter_empty_conv)
    with True show ?thesis by simp
  next
    case False
    with Cons show ?thesis by simp
  qed
qed

subsection \<open>The order of rows\<close>

lemma insert_subject: "isSubject x \<Longrightarrow> insertBy compareRows x ys = x # ys"
  by (cases ys) (simp_all add: sortCompare_def compareRows_def)

lemma insert_plain:
  assumes "\<not> isSubject x" "\<forall>y \<in> set ys. \<not> isSubject y" "sorted (map distance ys)"
  shows "sorted (map distance (insertBy compareRows x ys))"
  using assms
  by (induction ys) (auto simp: sortCompare_def compareRows_def set_insertBy)

lemma filter_no_subject:
  "\<forall>y \<in> set ys. \<not> isSubject y \<Longrightarrow> filter (\<lambda>row. \<not> isSubject row) ys = ys"
  by (simp add: filter_id_conv)

lemma rowsOrdered_insert:
  assumes "\<not> isSubject x" "rowsOrdered ys"
  shows "rowsOrdered (insertBy compareRows x ys)"
proof (cases ys)
  case Nil
  with assms show ?thesis by (simp add: rowsOrdered_def)
next
  case (Cons y ys')
  from assms(2) have tl: "\<forall>z \<in> set ys'. \<not> isSubject z"
    and srt: "sorted (map distance (filter (\<lambda>row. \<not> isSubject row) (y # ys')))"
    by (simp_all add: rowsOrdered_def Cons)
  show ?thesis
  proof (cases "isSubject y")
    case True
    from srt True tl have s': "sorted (map distance ys')"
      by (simp add: filter_no_subject)
    have ins: "insertBy compareRows x ys = y # insertBy compareRows x ys'"
      using True assms(1) by (simp add: Cons sortCompare_def compareRows_def)
    have no: "\<forall>z \<in> set (insertBy compareRows x ys'). \<not> isSubject z"
      using tl assms(1) by (simp add: set_insertBy)
    have "sorted (map distance (insertBy compareRows x ys'))"
      using insert_plain [OF assms(1) tl s'] .
    with no True show ?thesis
      by (simp add: ins rowsOrdered_def filter_no_subject)
  next
    case False
    with tl have all: "\<forall>z \<in> set ys. \<not> isSubject z" by (simp add: Cons)
    with srt have s: "sorted (map distance ys)" by (simp add: Cons filter_no_subject)
    have no: "\<forall>z \<in> set (insertBy compareRows x ys). \<not> isSubject z"
      using all assms(1) by (simp add: set_insertBy)
    then have no_tl: "\<forall>z \<in> set (tl (insertBy compareRows x ys)). \<not> isSubject z"
      by (cases "insertBy compareRows x ys") auto
    have "sorted (map distance (insertBy compareRows x ys))"
      using insert_plain [OF assms(1) all s] .
    with no no_tl show ?thesis
      by (simp add: rowsOrdered_def filter_no_subject)
  qed
qed

lemma rowsOrdered_sortBy:
  "length (filter isSubject rows) \<le> 1 \<Longrightarrow> rowsOrdered (sortBy compareRows rows)"
proof (induction rows)
  case Nil
  then show ?case by (simp add: sortBy_Nil rowsOrdered_def)
next
  case (Cons x rows)
  show ?case
  proof (cases "isSubject x")
    case True
    with Cons.prems have "filter isSubject rows = []" by simp
    then have none: "\<forall>y \<in> set (sortBy compareRows rows). \<not> isSubject y"
      by (simp add: filter_empty_conv set_sortBy)
    from Cons.prems True have "rowsOrdered (sortBy compareRows rows)"
      by (intro Cons.IH) simp
    with none True show ?thesis
      by (simp add: sortBy_Cons insert_subject rowsOrdered_def filter_no_subject)
  next
    case False
    with Cons.prems have "length (filter isSubject rows) \<le> 1" by simp
    then have "rowsOrdered (sortBy compareRows rows)" by (rule Cons.IH)
    with False show ?thesis
      by (simp add: sortBy_Cons rowsOrdered_insert)
  qed
qed

subsection \<open>The rows of a group\<close>

lemma distinct_map_insertBy:
  "distinct (map f (insertBy cmp x ys)) = (f x \<notin> f ` set ys \<and> distinct (map f ys))"
  by (induction ys) (auto simp: set_insertBy)

lemma distinct_map_sortBy: "distinct (map f (sortBy cmp xs)) = distinct (map f xs)"
  by (induction xs) (simp_all add: sortBy_Nil sortBy_Cons distinct_map_insertBy set_sortBy)

lemma distance_storeRow: "distance (storeRow props ws se) = storeDistance props (fst se)"
  by (simp add: storeRow_def Let_def storeDistance_def numOr_def split: option.splits)

lemma labels_buildGroup:
  "(size_group (buildGroup props ws n e), featureCode (buildGroup props ws n e)) = splitKey (fst e)"
  by (simp add: buildGroup_def Let_def split: prod.splits)

lemma row_ids_buildGroup:
  "map storeId_row (map (storeRow props ws) m) = map fst m"
  by (simp add: storeId_storeRow comp_def)

lemma group_of_entry:
  assumes e: "(key, m) \<in> set (buildGroups S (featureCodes props) (rateRecords props))"
    and g_def: "g = buildGroup props ws (length (rateRecords props)) (key, m)"
  defines "obs \<equiv> groupObservations S (featureCodes props) (rateRecords props) key"
  shows "obs \<noteq> []"
    and "(size_group g, featureCode g) = splitKey key"
    and "distinct (map storeId_row (stores g))"
    and "storeId_row ` set (stores g) = storeId ` set obs"
    and "\<forall>row \<in> set (stores g).
           recordCount row = length (filter (\<lambda>r. storeId r = storeId_row row) obs) \<and>
           distance row = storeDistance props (storeId_row row) \<and>
           isSubject row = (map_option storeId_store (subjectStore props) = Some (storeId_row row))"
    and "(\<exists>row \<in> set (stores g). isSubject row) \<longrightarrow> isSubject (hd (stores g))"
    and "\<forall>row \<in> set (tl (stores g)). \<not> isSubject row"
    and "sorted (map distance (filter (\<lambda>row. \<not> isSubject row) (stores g)))"
proof -
  have rows: "stores g = sortBy compareRows (map (storeRow props ws) m)"
    by (simp add: g_def stores_buildGroup)
  have dist: "distinct (map fst m)"
    using distinct_keys_buildGroups [OF e] by simp
  have ids: "fst ` set m = storeId ` set obs"
    unfolding obs_def by (rule entry_stores [OF e])
  from entriesFilled_buildGroups [of S "featureCodes props" "rateRecords props"] e
  have "m \<noteq> []" by (fastforce simp: entriesFilled_def)
  then have "fst ` set m \<noteq> {}" by simp
  with ids show "obs \<noteq> []" by auto
  show "(size_group g, featureCode g) = splitKey key"
    using labels_buildGroup [of props ws "length (rateRecords props)" "(key, m)"]
    by (simp add: g_def)
  show "distinct (map storeId_row (stores g))"
    by (simp only: rows distinct_map_sortBy row_ids_buildGroup dist)
  have "storeId_row ` set (stores g) = set (map storeId_row (map (storeRow props ws) m))"
    by (simp only: rows set_sortBy set_map)
  also have "\<dots> = fst ` set m"
    by (simp only: row_ids_buildGroup set_map)
  finally have "storeId_row ` set (stores g) = fst ` set m" .
  with ids show "storeId_row ` set (stores g) = storeId ` set obs" by simp
  show "\<forall>row \<in> set (stores g).
           recordCount row = length (filter (\<lambda>r. storeId r = storeId_row row) obs) \<and>
           distance row = storeDistance props (storeId_row row) \<and>
           isSubject row = (map_option storeId_store (subjectStore props) = Some (storeId_row row))"
  proof
    fix row assume "row \<in> set (stores g)"
    then obtain sid recs where se: "(sid, recs) \<in> set m" and row: "row = storeRow props ws (sid, recs)"
      by (auto simp: rows set_sortBy)
    have "recs = filter (\<lambda>r. storeId r = sid) obs"
      unfolding obs_def by (rule entry_records(1) [OF e se])
    then have "recordCount row = length (filter (\<lambda>r. storeId r = storeId_row row) obs)"
      by (simp add: row recordCount_storeRow storeId_storeRow)
    moreover have "distance row = storeDistance props (storeId_row row)"
      by (simp add: row distance_storeRow storeId_storeRow)
    moreover have "isSubject row
        = (map_option storeId_store (subjectStore props) = Some (storeId_row row))"
      by (auto simp: row isSubject_storeRow storeId_storeRow split: option.splits)
    ultimately show "recordCount row = length (filter (\<lambda>r. storeId r = storeId_row row) obs) \<and>
           distance row = storeDistance props (storeId_row row) \<and>
           isSubject row = (map_option storeId_store (subjectStore props) = Some (storeId_row row))"
      by blast
  qed
  have "rowsOrdered (stores g)"
    unfolding rows by (intro rowsOrdered_sortBy one_subject_row dist)
  then show tl: "\<forall>row \<in> set (tl (stores g)). \<not> isSubject row"
    and "sorted (map distance (filter (\<lambda>row. \<not> isSubject row) (stores g)))"
    by (simp_all add: rowsOrdered_def)
  show "(\<exists>row \<in> set (stores g). isSubject row) \<longrightarrow> isSubject (hd (stores g))"
  proof
    assume "\<exists>row \<in> set (stores g). isSubject row"
    then obtain row where "row \<in> set (stores g)" "isSubject row" by blast
    with tl show "isSubject (hd (stores g))" by (cases "stores g") auto
  qed
qed

subsection \<open>The example report\<close>

lemma ex_props_sel:
  "rateRecords (ex_props rs) = rs" "featureCodes (ex_props rs) = []"
  "subjectStore (ex_props rs) = Some ex_subject"
  by (simp_all add: ex_props_def)

lemma ex_allowed:
  "allowed DEFAULT_UNIT_SIZES (ex_record sid ''10x10'' d p)"
  "allowed DEFAULT_UNIT_SIZES (ex_record sid '' 5x5'' d p)"
  "allowed DEFAULT_UNIT_SIZES (ex_record sid ''5x5'' d p)"
  "\<not> allowed DEFAULT_UNIT_SIZES (ex_record sid ''7x7'' d p)"
  by (simp_all add: allowed_def normalizeSize_def toLowerCase_def toLowerChar_def
        isSpace_def DEFAULT_UNIT_SIZES_def ex_record_def)

lemma ex_code: "getFeatureCode [] (ex_record sid sz d p) = ''DUCC''"
  by (simp add: getFeatureCode_def ex_record_def)

lemma ex_add:
  "addRecord DEFAULT_UNIT_SIZES [] gs (ex_record sid ''10x10'' d p)
     = pushGroup ''10x10|DUCC'' (ex_record sid ''10x10'' d p) gs"
  "addRecord DEFAULT_UNIT_SIZES [] gs (ex_record sid '' 5x5'' d p)
     = pushGroup '' 5x5|DUCC'' (ex_record sid '' 5x5'' d p) gs"
  "addRecord DEFAULT_UNIT_SIZES [] gs (ex_record sid ''5x5'' d p)
     = pushGroup ''5x5|DUCC'' (ex_record sid ''5x5'' d p) gs"
  "addRecord DEFAULT_UNIT_SIZES [] gs (ex_record sid ''7x7'' d p) = gs"
  by (simp_all add: addRecord_def ex_allowed ex_code Let_def, simp_all add: ex_record_def)

lemma ex_storeId: "storeId (ex_record sid sz d p) = sid"
  by (simp add: ex_record_def)

lemma ex_groups: "buildGroups DEFAULT_UNIT_SIZES [] ex_records = [ex_entry]"
  by (simp add: buildGroups_def ex_records_def ex_add ex_storeId ex_entry_def)

lemma ex_report:
  "groupedData (ex_props ex_records) DEFAULT_UNIT_SIZES ex_ws lc
     = [buildGroup (ex_props ex_records) ex_ws 5 ex_entry]"
proof -
  have "length ex_records = 5" by (simp add: ex_records_def)
  moreover have "ex_records \<noteq> []" by (simp add: ex_records_def)
  ultimately show ?thesis
    by (simp add: groupedData_nonempty ex_props_sel ex_groups sortBy_single)
qed

lemma cex_report:
  "groupedData (ex_props cex_records) DEFAULT_UNIT_SIZES ex_ws lc
     = [buildGroup (ex_props cex_records) ex_ws 2 (''10x10|DUCC'', [(20, cex_records)])]"
proof -
  have "buildGroups DEFAULT_UNIT_SIZES [] cex_records = [(''10x10|DUCC'', [(20, cex_records)])]"
    by (simp add: buildGroups_def cex_records_def ex_add ex_storeId)
  moreover have "length cex_records = 2" "cex_records \<noteq> []" by (simp_all add: cex_records_def)
  ultimately show ?thesis
    by (simp add: groupedData_nonempty ex_props_sel sortBy_single)
qed

lemma bug_groups:
  "buildGroups DEFAULT_UNIT_SIZES [] bug_records =
     [(''10x10|DUCC'', [(20, [ex_record 20 ''10x10'' 0 (Some 100)])]),
      ('' 5x5|DUCC'', [(20, [ex_record 20 '' 5x5'' 0 (Some 50)])])]"
  by (simp add: buildGroups_def bug_records_def ex_add ex_storeId)

lemma ex_isSubject: "isSubject (storeRow (ex_props rs) ws (sid, recs)) = (sid = 10)"
  by (auto simp: isSubject_storeRow ex_props_sel ex_subject_def)

lemma ex_distance:
  "distance (storeRow (ex_props rs) ws (10, recs)) = 0"
  "distance (storeRow (ex_props rs) ws (20, recs)) = 2"
  "distance (storeRow (ex_props rs) ws (30, recs)) = 1"
  by (simp_all add: storeRow_def Let_def ex_props_def ex_subject_def numOr_def)

lemma ex_adjust:
  "getStoreAdjustment (ex_props rs) 10 = 0"
  "getStoreAdjustment (ex_props rs) 20 = 1 / 20"
  "getStoreAdjustment (ex_props rs) 30 = 1 / 20"
  by (simp_all add: getStoreAdjustment_def ex_props_def ex_subject_def ex_rankings_def
        totalAdjustment_def numOr_def rankingCategories_def)

lemma ex_stores:
  "stores (buildGroup (ex_props rs) ex_ws n ex_entry) =
     [storeRow (ex_props rs) ex_ws (10, [ex_record 10 ''10x10'' 0 (Some 150)]),
      storeRow (ex_props rs) ex_ws (30, [ex_record 30 ''10x10'' 0 (Some 90)]),
      storeRow (ex_props rs) ex_ws
        (20, [ex_record 20 ''10x10'' (- 2) (Some 100), ex_record 20 ''10x10'' (- 5) (Some 120)])]"
  by (simp add: stores_buildGroup ex_entry_def sortBy_def compareRows_def sortCompare_def
        ex_isSubject ex_distance)

lemma ex_avg_A:
  "asking (calcAverages
     [ex_record 20 ''10x10'' (- 2) (Some 100), ex_record 20 ''10x10'' (- 5) (Some 120)] st)
     = (if st \<le> - 5 then Some 110 else if st \<le> - 2 then Some 100 else None)"
  by (simp add: calcAverages_def inWindow_def truthy_def ex_record_def Let_def)

lemma ex_windows:
  "windowStart ex_ws T6 = - 6" "windowStart ex_ws T1 = - 1" "windowStart ex_ws T12 = - 12"
  by (simp_all add: ex_ws_def)

lemma parse_10x10: "parseSize ''10x10'' = Some 100"
  by (simp add: parseSize_def toLowerCase_def toLowerChar_def isSpace_def parseFloat_def
        isDigit_def digitsVal_def digitVal_def exponentPart_def mulN_def Let_def)

lemma parse_5x5: "parseSize ''5x5'' = Some 25"
  by (simp add: parseSize_def toLowerCase_def toLowerChar_def isSpace_def parseFloat_def
        isDigit_def digitsVal_def digitVal_def exponentPart_def mulN_def Let_def)

lemma parse_sp5x5: "parseSize '' 5x5'' = None"
  by (simp add: parseSize_def toLowerCase_def toLowerChar_def isSpace_def parseFloat_def
        isDigit_def digitsVal_def digitVal_def exponentPart_def mulN_def Let_def)

lemma ex_storeDistance: "storeDistance (ex_props rs) 20 = 2"
  by (simp add: storeDistance_def ex_props_def ex_subject_def)

section \<open>Adjusted asking figures\<close>

text \<open>
  C1, as amended. In every row of every group and for each of the four windows, the
  adjusted asking figure is the unadjusted asking mean times one plus the row's
  adjustment factor whenever that mean is a number other than zero, and it is no
  value when the mean is no value or exactly zero. The row's adjustment factor is
  the store's. When no online price of the input is negative a mean is never zero,
  and the adjusted figure is no value exactly when the mean is.
\<close>

theorem adjusted_asking_nonzero:
  "(\<forall>g \<in> set (groupedData props S ws lc). \<forall>row \<in> set (stores g).
      adjustment row = getStoreAdjustment props (storeId_row row) \<and>
      (\<forall>w. (askingOf w row = None \<or> askingOf w row = Some 0 \<longrightarrow> askingAdjOf w row = None) \<and>
           (\<forall>a. askingOf w row = Some a \<and> a \<noteq> 0 \<longrightarrow>
                askingAdjOf w row = Some (a * (1 + adjustment row))))) \<and>
   ((\<forall>r \<in> set (rateRecords props). \<forall>p. onlinePrice r = Some p \<longrightarrow> 0 \<le> p) \<longrightarrow>
    (\<forall>g \<in> set (groupedData props S ws lc). \<forall>row \<in> set (stores g). \<forall>w.
       askingAdjOf w row = map_option (\<lambda>a. a * (1 + adjustment row)) (askingOf w row)))"
proof (intro conjI ballI impI allI)
  fix g row
  assume "g \<in> set (groupedData props S ws lc)" "row \<in> set (stores g)"
  then obtain sid records where row: "row = storeRow props ws (sid, records)"
    using groupedData_row by blast
  show "adjustment row = getStoreAdjustment props (storeId_row row)"
    by (simp add: row adjustment_storeRow storeId_storeRow)
  fix w
  show "askingAdjOf w row = None" if "askingOf w row = None \<or> askingOf w row = Some 0"
    using that
    by (auto simp: row storeRow_asking storeRow_askingAdj adjusted_def truthy_def)
  show "askingAdjOf w row = Some (a * (1 + adjustment row))"
    if "askingOf w row = Some a \<and> a \<noteq> 0" for a
    using that
    by (simp add: row storeRow_asking storeRow_askingAdj adjusted_def truthy_def
          adjustment_storeRow)
next
  fix g row w
  assume nonneg: "\<forall>r \<in> set (rateRecords props). \<forall>p. onlinePrice r = Some p \<longrightarrow> 0 \<le> p"
    and "g \<in> set (groupedData props S ws lc)" "row \<in> set (stores g)"
  then obtain sid records where row: "row = storeRow props ws (sid, records)"
    and sub: "set records \<subseteq> set (rateRecords props)"
    using groupedData_row by blast
  from nonneg sub have nn: "\<forall>r \<in> set records. \<forall>p. onlinePrice r = Some p \<longrightarrow> 0 \<le> p"
    by blast
  show "askingAdjOf w row = map_option (\<lambda>a. a * (1 + adjustment row)) (askingOf w row)"
  proof (cases "asking (calcAverages records (windowStart ws w))")
    case None
    then show ?thesis
      by (simp add: row storeRow_asking storeRow_askingAdj adjusted_def truthy_def)
  next
    case (Some a)
    with asking_positive [OF nn Some] show ?thesis
      by (simp add: row storeRow_asking storeRow_askingAdj adjusted_def truthy_def
            adjustment_storeRow)
  qed
qed

theorem adjusted_asking_nonzero_witness:
  "adjustment (last (stores (hd (groupedData (ex_props ex_records) DEFAULT_UNIT_SIZES ex_ws
      asciiCompare)))) = 1 / 20 \<and>
   askingAdjOf T6 (last (stores (hd (groupedData (ex_props ex_records) DEFAULT_UNIT_SIZES ex_ws
      asciiCompare)))) = Some (110 * (1 + 1 / 20)) \<and>
   askingAdjOf T1 (last (stores (hd (groupedData (ex_props ex_records) DEFAULT_UNIT_SIZES ex_ws
      asciiCompare)))) = None"
proof -
  let ?G = "groupedData (ex_props ex_records) DEFAULT_UNIT_SIZES ex_ws asciiCompare"
  let ?row = "last (stores (hd ?G))"
  have g: "hd ?G \<in> set ?G" by (simp add: ex_report)
  have row: "?row = storeRow (ex_props ex_records) ex_ws
      (20, [ex_record 20 ''10x10'' (- 2) (Some 100), ex_record 20 ''10x10'' (- 5) (Some 120)])"
    by (simp add: ex_report ex_stores)
  have r: "?row \<in> set (stores (hd ?G))" by (simp add: ex_report ex_stores)
  have a6: "askingOf T6 ?row = Some 110 \<and> (110::real) \<noteq> 0"
    by (simp only: row storeRow_asking ex_avg_A ex_windows) simp
  have a1: "askingOf T1 ?row = None \<or> askingOf T1 ?row = Some 0"
    by (simp only: row storeRow_asking ex_avg_A ex_windows) simp
  have sid: "storeId_row ?row = 20" by (simp only: row storeId_storeRow fst_conv)
  from adjusted_asking_nonzero [of "ex_props ex_records" DEFAULT_UNIT_SIZES ex_ws asciiCompare]
  have *: "adjustment ?row = getStoreAdjustment (ex_props ex_records) (storeId_row ?row)"
    and **: "\<And>w. askingOf w ?row = None \<or> askingOf w ?row = Some 0 \<Longrightarrow> askingAdjOf w ?row = None"
    and ***: "\<And>w a. askingOf w ?row = Some a \<and> a \<noteq> 0 \<Longrightarrow>
                 askingAdjOf w ?row = Some (a * (1 + adjustment ?row))"
    using g r by blast+
  from * have adj: "adjustment ?row = 1 / 20" by (simp only: sid ex_adjust)
  from *** [OF a6] have "askingAdjOf T6 ?row = Some (110 * (1 + 1 / 20))"
    by (simp only: adj)
  with adj ** [OF a1] show ?thesis by blast
qed

text \<open>
  Two online prices of \<open>5\<close> and \<open>-5\<close> for one store have the mean \<open>0\<close>, a
  number, and the adjusted figure is no value.
\<close>

theorem adjusted_asking_counterexample:
  "t12Asking (hd (stores (hd (groupedData (ex_props cex_records) DEFAULT_UNIT_SIZES ex_ws
      asciiCompare)))) = Some 0 \<and>
   t12AskingAdj (hd (stores (hd (groupedData (ex_props cex_records) DEFAULT_UNIT_SIZES ex_ws
      asciiCompare)))) = None"
proof -
  have avg: "asking (calcAverages cex_records (- 12)) = Some 0"
    by (simp add: calcAverages_def cex_records_def inWindow_def truthy_def ex_record_def)
  have "hd (stores (hd (groupedData (ex_props cex_records) DEFAULT_UNIT_SIZES ex_ws asciiCompare)))
      = storeRow (ex_props cex_records) ex_ws (20, cex_records)"
    by (simp add: cex_report stores_buildGroup sortBy_single)
  moreover have "t12Asking (storeRow (ex_props cex_records) ex_ws (20, cex_records)) = Some 0"
    using storeRow_asking [of T12 "ex_props cex_records" ex_ws 20 cex_records]
    by (simp add: ex_ws_def avg)
  moreover have "t12AskingAdj (storeRow (ex_props cex_records) ex_ws (20, cex_records)) = None"
    using storeRow_askingAdj [of T12 "ex_props cex_records" ex_ws 20 cex_records]
    by (simp add: ex_ws_def avg adjusted_def truthy_def)
  ultimately show ?thesis by simp
qed

section \<open>The adjustment factor of a store\<close>

text \<open>
  C2, as amended. With no subject store every adjustment factor is \<open>0\<close>. With a
  subject store, its own factor is \<open>0\<close>; another store's factor is the base
  adjustment (the sum of the three components over 100) when the rankings of the
  subject or of that store are absent; otherwise it is the base adjustment plus
  0.01 times the mean over the eight categories of the subject's score minus the
  store's, where a score that is missing or zero counts as \<open>5\<close>.
\<close>

theorem store_adjustment_amended:
  "(subjectStore props = None \<longrightarrow> getStoreAdjustment props sid = 0) \<and>
   (\<forall>subject. subjectStore props = Some subject \<longrightarrow>
      (sid = storeId_store subject \<longrightarrow> getStoreAdjustment props sid = 0) \<and>
      (sid \<noteq> storeId_store subject \<and>
       (storeRankings props (storeId_store subject) = None \<or> storeRankings props sid = None) \<longrightarrow>
         getStoreAdjustment props sid = spec_baseAdjustment (adjustmentFactors props)) \<and>
      (\<forall>sr cr. sid \<noteq> storeId_store subject \<and>
         storeRankings props (storeId_store subject) = Some sr \<and>
         storeRankings props sid = Some cr \<longrightarrow>
         getStoreAdjustment props sid =
           spec_baseAdjustment (adjustmentFactors props) +
           0.01 * ((\<Sum>cat \<leftarrow> rankingCategories. zeroAs5 sr cat - zeroAs5 cr cat) / 8)))"
proof (cases "subjectStore props")
  case None
  then show ?thesis by (simp add: getStoreAdjustment_def)
next
  case (Some subject)
  show ?thesis
  proof (cases "sid = storeId_store subject")
    case True
    with Some show ?thesis by (simp add: getStoreAdjustment_def)
  next
    case other: False
    show ?thesis
    proof (cases "storeRankings props (storeId_store subject)")
      case None
      with Some other show ?thesis by (simp add: getStoreAdjustment_def totalAdjustment_base)
    next
      case subj: (Some sr)
      show ?thesis
      proof (cases "storeRankings props sid")
        case None
        with Some other subj show ?thesis
          by (simp add: getStoreAdjustment_def totalAdjustment_base)
      next
        case comp: (Some cr)
        have "foldl (\<lambda>totalDiff cat. totalDiff + (numOr (sr cat) 5 - numOr (cr cat) 5))
                0 rankingCategories
              = (\<Sum>cat \<leftarrow> rankingCategories. zeroAs5 sr cat - zeroAs5 cr cat)"
          by (simp add: foldl_diff_sum numOr_5)
        with Some other subj comp show ?thesis
          by (simp add: getStoreAdjustment_def Let_def totalAdjustment_base
                length_rankingCategories)
      qed
    qed
  qed
qed

theorem store_adjustment_amended_witness:
  "getStoreAdjustment (ex_props []) 10 = 0 \<and>
   getStoreAdjustment (ex_props []) 30 = 5 / 100 \<and>
   getStoreAdjustment (ex_props []) 20 = 5 / 100 \<and>
   getStoreAdjustment ((ex_props [])\<lparr>subjectStore := None\<rparr>) 20 = 0"
  using store_adjustment_amended [of "ex_props []" 10]
        store_adjustment_amended [of "ex_props []" 30]
        store_adjustment_amended [of "ex_props []" 20]
        store_adjustment_amended [of "(ex_props [])\<lparr>subjectStore := None\<rparr>" 20]
  by (simp add: ex_props_def ex_subject_def ex_rankings_def spec_baseAdjustment_def
        zeroAs5_def rankingCategories_def)

text \<open>
  The subject has the score \<open>0\<close> for Location and no other score; store \<open>A\<close> has
  a rankings record without scores. The source counts the \<open>0\<close> as \<open>5\<close> and returns
  the base adjustment; with the score taken as it is the factor is lower by
  \<open>5 / 800\<close>.
\<close>

theorem store_adjustment_counterexample:
  "getStoreAdjustment (ex_props []) 20 = 5 / 100 \<and>
   spec_storeAdjustment (ex_props []) ex_subject 20 = 5 / 100 - 5 / 800 \<and>
   getStoreAdjustment (ex_props []) 20 \<noteq> spec_storeAdjustment (ex_props []) ex_subject 20"
proof -
  have code: "getStoreAdjustment (ex_props []) 20 = 5 / 100"
    by (simp add: ex_adjust)
  have spec: "spec_storeAdjustment (ex_props []) ex_subject 20 = 5 / 100 - 5 / 800"
    by (simp add: spec_storeAdjustment_def ex_props_def ex_subject_def ex_rankings_def
          spec_baseAdjustment_def missingAs5_def rankingCategories_def)
  show ?thesis by (simp only: code spec) simp
qed

section \<open>The order of groups\<close>

text \<open>
  C3. Two observations of one store, the first of size \<open>''10x10''\<close> and the second
  of size \<open>'' 5x5''\<close> with a space in front, both pass the size filter. The second
  size splits into an empty piece followed by two fives, so its parsed area is
  \<^verbatim>\<open>NaN\<close> rather than 25 or 0; the comparator returns \<^verbatim>\<open>NaN\<close>, the sort reads
  that as a tie, and the group stays behind the group of area 100.
\<close>

theorem unparsed_size_keeps_place:
  "parseSize ''10x10'' = Some 100 \<and>
   parseSize '' 5x5'' = None \<and>
   map size_group (groupedData (ex_props bug_records) DEFAULT_UNIT_SIZES ex_ws asciiCompare)
     = [''10x10'', '' 5x5'']"
proof -
  have ne: "rateRecords (ex_props bug_records) \<noteq> []"
    by (simp add: ex_props_sel bug_records_def)
  have keys: "splitKey ''10x10|DUCC'' = (''10x10'', ''DUCC'')"
    "splitKey '' 5x5|DUCC'' = ('' 5x5'', ''DUCC'')"
    by (simp_all add: splitKey_def)
  have "map size_group (groupedData (ex_props bug_records) DEFAULT_UNIT_SIZES ex_ws asciiCompare)
          = [''10x10'', '' 5x5'']"
    by (simp add: groupedData_nonempty [OF ne] ex_props_sel bug_groups sortBy_def
          sortCompare_def compareGroups_def size_buildGroup keys parse_10x10 parse_sp5x5
          subN_def)
  then show ?thesis by (simp add: parse_10x10 parse_sp5x5)
qed

text \<open>Without the space the same two observations come out in ascending area.\<close>

lemma sizes_in_area_order:
  "map size_group
     (groupedData
        (ex_props [ex_record 20 ''10x10'' 0 (Some 100), ex_record 20 ''5x5'' 0 (Some 50)])
        DEFAULT_UNIT_SIZES ex_ws asciiCompare)
     = [''5x5'', ''10x10'']"
proof -
  let ?rs = "[ex_record 20 ''10x10'' 0 (Some 100), ex_record 20 ''5x5'' 0 (Some 50)]"
  have groups: "buildGroups DEFAULT_UNIT_SIZES [] ?rs =
     [(''10x10|DUCC'', [(20, [ex_record 20 ''10x10'' 0 (Some 100)])]),
      (''5x5|DUCC'', [(20, [ex_record 20 ''5x5'' 0 (Some 50)])])]"
    by (simp add: buildGroups_def ex_add ex_storeId)
  have keys: "splitKey ''10x10|DUCC'' = (''10x10'', ''DUCC'')"
    "splitKey ''5x5|DUCC'' = (''5x5'', ''DUCC'')"
    by (simp_all add: splitKey_def)
  have ne: "rateRecords (ex_props ?rs) \<noteq> []"
    by (simp add: ex_props_sel)
  show ?thesis
    by (simp add: groupedData_nonempty [OF ne] ex_props_sel groups sortBy_def
          sortCompare_def compareGroups_def size_buildGroup keys parse_10x10 parse_5x5
          subN_def)
qed

section \<open>Feature tags and codes\<close>

text \<open>
  C4. The derived feature tag is a function of the five flags alone, and it is
  the tag of the two priority chains: drive-up before elevator before outdoor
  before ground level, climate controlled before humidity controlled before
  non-climate, joined by \<open>'' / ''\<close>. Only the first true flag of a chain counts.
\<close>

theorem feature_tag_priority:
  "featureTag record =
     spec_tag (driveUp record) (elevator record) (outdoorAccess record)
              (climateControlled record) (humidityControlled record)"
  by (cases "driveUp record"; cases "elevator record"; cases "outdoorAccess record";
      cases "climateControlled record"; cases "humidityControlled record")
     (simp_all add: featureTag_def tagParts_def spec_tag_def)

theorem feature_tag_priority_witness:
  "featureTag \<lparr>storeId = 1, size_label = ''10x10'', driveUp = True, elevator = True,
      outdoorAccess = True, climateControlled = True, humidityControlled = True,
      date = None, walkInPrice = None, onlinePrice = None\<rparr>
   = ''Drive-Up / Climate Controlled''"
  using feature_tag_priority [of "\<lparr>storeId = 1, size_label = ''10x10'', driveUp = True,
      elevator = True, outdoorAccess = True, climateControlled = True,
      humidityControlled = True, date = None, walkInPrice = None, onlinePrice = None\<rparr>"]
  by (simp add: spec_tag_def)

text \<open>
  C5. When no entry of the feature-code list has the derived tag as its
  original tag, the code is the fallback: drive-up gives DUCC or DU, elevator
  gives ECC or ENCC, anything else gives GLCC or GNCC, the first of each pair
  when the climate-controlled flag is set. Outdoor access and humidity control
  play no part.
\<close>

theorem feature_code_fallback:
  assumes "\<forall>f \<in> set fcs. originalTag f \<noteq> featureTag record"
  shows "getFeatureCode fcs record =
           spec_fallback (driveUp record) (elevator record) (climateControlled record)"
proof -
  have "find (\<lambda>f. originalTag f = featureTag record) fcs = None"
    using assms by (simp add: find_None_iff)
  then show ?thesis
    by (simp add: getFeatureCode_def spec_fallback_def)
qed

theorem feature_code_fallback_witness:
  "getFeatureCode [\<lparr>originalTag = ''Elevator / Non-Climate'', code = ''EL''\<rparr>]
     \<lparr>storeId = 1, size_label = ''10x10'', driveUp = True, elevator = False,
      outdoorAccess = False, climateControlled = True, humidityControlled = False,
      date = None, walkInPrice = None, onlinePrice = None\<rparr>
   = ''DUCC''"
  using feature_code_fallback [of "[\<lparr>originalTag = ''Elevator / Non-Climate'', code = ''EL''\<rparr>]"
     "\<lparr>storeId = 1, size_label = ''10x10'', driveUp = True, elevator = False,
      outdoorAccess = False, climateControlled = True, humidityControlled = False,
      date = None, walkInPrice = None, onlinePrice = None\<rparr>"]
  by (simp add: spec_fallback_def featureTag_def tagParts_def)

section \<open>Market share\<close>

text \<open>
  C6. For a non-empty input, the market share of each group is its number of
  observations over the number of all input observations, times 100. The
  observations of all groups together are the input observations that pass the
  size filter, so the shares sum to that number over the number of all input
  observations, times 100, and to less than 100 as soon as one input observation
  does not pass the filter.
\<close>

theorem market_share_of_total:
  assumes "rateRecords props \<noteq> []"
  shows "(\<forall>g \<in> set (groupedData props S ws lc).
            marketShare g = real (groupCount g) / real (length (rateRecords props)) * 100) \<and>
         sum_list (map groupCount (groupedData props S ws lc))
           = length (filter (allowed S) (rateRecords props)) \<and>
         sum_list (map marketShare (groupedData props S ws lc))
           = real (sum_list (map groupCount (groupedData props S ws lc)))
               / real (length (rateRecords props)) * 100 \<and>
         ((\<exists>r \<in> set (rateRecords props). \<not> allowed S r) \<longrightarrow>
            sum_list (map marketShare (groupedData props S ws lc)) < 100)"
proof -
  let ?n = "length (rateRecords props)"
  let ?es = "buildGroups S (featureCodes props) (rateRecords props)"
  let ?G = "groupedData props S ws lc"
  have each: "\<forall>g \<in> set ?G. marketShare g = real (groupCount g) / real ?n * 100"
  proof
    fix g assume "g \<in> set ?G"
    then obtain e where "g = buildGroup props ws ?n e"
      using groupedData_member by blast
    then show "marketShare g = real (groupCount g) / real ?n * 100"
      by (simp add: marketShare_buildGroup groupCount_buildGroup)
  qed
  have counts: "sum_list (map groupCount ?G) = length (filter (allowed S) (rateRecords props))"
    using assms
    by (simp add: groupedData_nonempty sum_list_sortBy comp_def groupCount_buildGroup
          count_buildGroups)
  have total: "sum_list (map groupCount ?G) = (\<Sum>e \<leftarrow> ?es. entryCount e)"
    using assms
    by (simp add: groupedData_nonempty sum_list_sortBy comp_def groupCount_buildGroup)
  have "sum_list (map marketShare ?G) = (\<Sum>e \<leftarrow> ?es. marketShare (buildGroup props ws ?n e))"
    using assms by (simp add: groupedData_nonempty sum_list_sortBy comp_def)
  also have "\<dots> = (\<Sum>e \<leftarrow> ?es. real (entryCount e) / real ?n * 100)"
    by (simp only: marketShare_buildGroup)
  also have "\<dots> = real (\<Sum>e \<leftarrow> ?es. entryCount e) / real ?n * 100"
    by (rule sum_list_share)
  finally have shares:
    "sum_list (map marketShare ?G) = real (sum_list (map groupCount ?G)) / real ?n * 100"
    by (simp only: total)
  have less: "sum_list (map marketShare ?G) < 100"
    if "\<exists>r \<in> set (rateRecords props). \<not> allowed S r"
  proof -
    have "length (filter (allowed S) (rateRecords props)) < ?n"
      using that by (auto intro: length_filter_less)
    then have "real (sum_list (map groupCount ?G)) < real ?n"
      using counts by simp
    moreover have "0 < real ?n" using assms by simp
    ultimately have "real (sum_list (map groupCount ?G)) / real ?n < 1"
      by simp
    then have "real (sum_list (map groupCount ?G)) / real ?n * 100 < 1 * 100"
      by (rule mult_strict_right_mono) simp
    then show ?thesis by (simp only: shares mult_1)
  qed
  show ?thesis using each counts shares less by blast
qed

theorem market_share_of_total_witness:
  "sum_list (map groupCount (groupedData (ex_props ex_records) DEFAULT_UNIT_SIZES ex_ws
      asciiCompare)) = 4 \<and>
   sum_list (map marketShare (groupedData (ex_props ex_records) DEFAULT_UNIT_SIZES ex_ws
      asciiCompare)) = 80 \<and>
   sum_list (map marketShare (groupedData (ex_props ex_records) DEFAULT_UNIT_SIZES ex_ws
      asciiCompare)) < 100"
proof -
  have ne: "rateRecords (ex_props ex_records) \<noteq> []"
    by (simp add: ex_props_sel ex_records_def)
  have kept: "length (filter (allowed DEFAULT_UNIT_SIZES) (rateRecords (ex_props ex_records))) = 4"
    by (simp add: ex_props_sel ex_records_def ex_allowed)
  have out: "\<exists>r \<in> set (rateRecords (ex_props ex_records)). \<not> allowed DEFAULT_UNIT_SIZES r"
    by (simp add: ex_props_sel ex_records_def ex_allowed)
  have n: "length (rateRecords (ex_props ex_records)) = 5"
    by (simp add: ex_props_sel ex_records_def)
  from market_share_of_total [OF ne, of DEFAULT_UNIT_SIZES ex_ws asciiCompare] out
  show ?thesis by (simp add: kept n)
qed

section \<open>Windows without samples\<close>

text \<open>
  C7. When no record in the window has an online price, the asking mean of the
  window is no value, and likewise for the in-store mean when no record in the
  window has a walk-in price; this holds for the averages of any list of records
  and so for each window of each store's row.
\<close>

theorem zero_samples_no_value:
  "((\<forall>r \<in> set records. inWindow start r \<longrightarrow> onlinePrice r = None)
      \<longrightarrow> asking (calcAverages records start) = None) \<and>
   ((\<forall>r \<in> set records. inWindow start r \<longrightarrow> walkInPrice r = None)
      \<longrightarrow> inStore (calcAverages records start) = None) \<and>
   ((\<forall>r \<in> set records. inWindow (windowStart ws w) r \<longrightarrow> onlinePrice r = None)
      \<longrightarrow> askingOf w (storeRow props ws (sid, records)) = None) \<and>
   ((\<forall>r \<in> set records. inWindow (windowStart ws w) r \<longrightarrow> walkInPrice r = None)
      \<longrightarrow> inStoreOf w (storeRow props ws (sid, records)) = None)"
proof -
  have a: "asking (calcAverages recs st) = None"
    if "\<forall>r \<in> set recs. inWindow st r \<longrightarrow> onlinePrice r = None" for recs st
    using that by (intro calc_asking_None) (auto simp: truthy_def)
  have b: "inStore (calcAverages recs st) = None"
    if "\<forall>r \<in> set recs. inWindow st r \<longrightarrow> walkInPrice r = None" for recs st
    using that by (intro calc_inStore_None) (auto simp: truthy_def)
  show ?thesis
    using a b by (simp add: storeRow_asking storeRow_inStore)
qed

theorem zero_samples_no_value_witness:
  "asking (calcAverages [ex_record 20 ''10x10'' (- 2) (Some 100),
                         ex_record 20 ''10x10'' (- 5) (Some 120)] (- 1)) = None \<and>
   inStore (calcAverages [ex_record 20 ''10x10'' (- 2) (Some 100),
                          ex_record 20 ''10x10'' (- 5) (Some 120)] (- 1)) = None \<and>
   askingOf T1 (storeRow (ex_props ex_records) ex_ws
     (20, [ex_record 20 ''10x10'' (- 2) (Some 100),
           ex_record 20 ''10x10'' (- 5) (Some 120)])) = None \<and>
   inStoreOf T1 (storeRow (ex_props ex_records) ex_ws
     (20, [ex_record 20 ''10x10'' (- 2) (Some 100),
           ex_record 20 ''10x10'' (- 5) (Some 120)])) = None"
  using zero_samples_no_value
    [of "[ex_record 20 ''10x10'' (- 2) (Some 100), ex_record 20 ''10x10'' (- 5) (Some 120)]"
        "- 1" ex_ws T1 "ex_props ex_records" 20]
  by (simp add: inWindow_def ex_record_def ex_ws_def)

section \<open>The order of rows within a group\<close>

text \<open>
  C8. Every group of the report is the group of some key whose observations (the
  input observations that pass the size filter and carry the key) are not none. Its
  rows are one per store with an observation in the group, each store once; a row
  counts the store's observations in the group, its distance is the store's
  distance in the selected stores (\<open>0\<close> for a store not listed), and it is the
  subject's row exactly when its store is the subject store. If the subject store
  has an observation in the group then the first row is the subject's; no later
  row is the subject's, and the rows of the other stores are in non-decreasing
  order of distance. Every input observation that passes the filter has its store
  among the rows of the group of its key.
\<close>

theorem subject_first_then_distance:
  "(\<forall>g \<in> set (groupedData props S ws lc). \<exists>key.
      groupObservations S (featureCodes props) (rateRecords props) key \<noteq> [] \<and>
      (size_group g, featureCode g) = splitKey key \<and>
      distinct (map storeId_row (stores g)) \<and>
      storeId_row ` set (stores g)
        = storeId ` set (groupObservations S (featureCodes props) (rateRecords props) key) \<and>
      (\<forall>row \<in> set (stores g).
         recordCount row
           = length (filter (\<lambda>r. storeId r = storeId_row row)
                       (groupObservations S (featureCodes props) (rateRecords props) key)) \<and>
         distance row = storeDistance props (storeId_row row) \<and>
         isSubject row = (map_option storeId_store (subjectStore props) = Some (storeId_row row))) \<and>
      ((\<exists>subject. subjectStore props = Some subject \<and>
          storeId_store subject
            \<in> storeId ` set (groupObservations S (featureCodes props) (rateRecords props) key))
         \<longrightarrow> isSubject (hd (stores g))) \<and>
      ((\<exists>row \<in> set (stores g). isSubject row) \<longrightarrow> isSubject (hd (stores g))) \<and>
      (\<forall>row \<in> set (tl (stores g)). \<not> isSubject row) \<and>
      sorted (map distance (filter (\<lambda>row. \<not> isSubject row) (stores g)))) \<and>
   (\<forall>r \<in> set (rateRecords props). allowed S r \<longrightarrow>
      (\<exists>g \<in> set (groupedData props S ws lc).
         (size_group g, featureCode g) = splitKey (groupKeyOf (featureCodes props) r) \<and>
         storeId_row ` set (stores g)
           = storeId ` set (groupObservations S (featureCodes props) (rateRecords props)
                              (groupKeyOf (featureCodes props) r))))"
proof (intro conjI ballI impI)
  fix g assume "g \<in> set (groupedData props S ws lc)"
  then obtain e where e: "e \<in> set (buildGroups S (featureCodes props) (rateRecords props))"
    and g: "g = buildGroup props ws (length (rateRecords props)) e"
    using groupedData_member by blast
  obtain key m where km: "e = (key, m)" by (cases e)
  let ?obs = "groupObservations S (featureCodes props) (rateRecords props) key"
  have e': "(key, m) \<in> set (buildGroups S (featureCodes props) (rateRecords props))"
    using e km by simp
  have g': "g = buildGroup props ws (length (rateRecords props)) (key, m)"
    using g km by simp
  have f1: "?obs \<noteq> []" by (rule group_of_entry(1) [OF e' g'])
  have f2: "(size_group g, featureCode g) = splitKey key" by (rule group_of_entry(2) [OF e' g'])
  have f3: "distinct (map storeId_row (stores g))" by (rule group_of_entry(3) [OF e' g'])
  have f4: "storeId_row ` set (stores g) = storeId ` set ?obs" by (rule group_of_entry(4) [OF e' g'])
  have f5: "\<forall>row \<in> set (stores g).
         recordCount row = length (filter (\<lambda>r. storeId r = storeId_row row) ?obs) \<and>
         distance row = storeDistance props (storeId_row row) \<and>
         isSubject row = (map_option storeId_store (subjectStore props) = Some (storeId_row row))"
    by (rule group_of_entry(5) [OF e' g'])
  have f6: "(\<exists>row \<in> set (stores g). isSubject row) \<longrightarrow> isSubject (hd (stores g))"
    by (rule group_of_entry(6) [OF e' g'])
  have f7: "\<forall>row \<in> set (tl (stores g)). \<not> isSubject row"
    by (rule group_of_entry(7) [OF e' g'])
  have f8: "sorted (map distance (filter (\<lambda>row. \<not> isSubject row) (stores g)))"
    by (rule group_of_entry(8) [OF e' g'])
  have subj: "(\<exists>subject. subjectStore props = Some subject \<and>
                 storeId_store subject \<in> storeId ` set ?obs)
              \<longrightarrow> isSubject (hd (stores g))"
  proof
    assume "\<exists>subject. subjectStore props = Some subject \<and>
                storeId_store subject \<in> storeId ` set ?obs"
    then obtain subject where s: "subjectStore props = Some subject"
      and "storeId_store subject \<in> storeId ` set ?obs" by blast
    with f4 have "storeId_store subject \<in> storeId_row ` set (stores g)" by simp
    then obtain row where row: "row \<in> set (stores g)"
      "storeId_row row = storeId_store subject" by auto
    with f5 s have "isSubject row" by simp
    with row(1) f6 show "isSubject (hd (stores g))" by blast
  qed
  show "\<exists>key.
      groupObservations S (featureCodes props) (rateRecords props) key \<noteq> [] \<and>
      (size_group g, featureCode g) = splitKey key \<and>
      distinct (map storeId_row (stores g)) \<and>
      storeId_row ` set (stores g)
        = storeId ` set (groupObservations S (featureCodes props) (rateRecords props) key) \<and>
      (\<forall>row \<in> set (stores g).
         recordCount row
           = length (filter (\<lambda>r. storeId r = storeId_row row)
                       (groupObservations S (featureCodes props) (rateRecords props) key)) \<and>
         distance row = storeDistance props (storeId_row row) \<and>
         isSubject row = (map_option storeId_store (subjectStore props) = Some (storeId_row row))) \<and>
      ((\<exists>subject. subjectStore props = Some subject \<and>
          storeId_store subject
            \<in> storeId ` set (groupObservations S (featureCodes props) (rateRecords props) key))
         \<longrightarrow> isSubject (hd (stores g))) \<and>
      ((\<exists>row \<in> set (stores g). isSubject row) \<longrightarrow> isSubject (hd (stores g))) \<and>
      (\<forall>row \<in> set (tl (stores g)). \<not> isSubject row) \<and>
      sorted (map distance (filter (\<lambda>row. \<not> isSubject row) (stores g)))"
    by (intro exI [of _ key] conjI f1 f2 f3 f4 f5 subj f6 f7 f8)
next
  fix r assume r: "r \<in> set (rateRecords props)" "allowed S r"
  let ?key = "groupKeyOf (featureCodes props) r"
  from entry_of_record [OF r] obtain m where
    e: "(?key, m) \<in> set (buildGroups S (featureCodes props) (rateRecords props))" by blast
  define gg where "gg = buildGroup props ws (length (rateRecords props)) (?key, m)"
  from r(1) have "rateRecords props \<noteq> []" by auto
  with e have mem: "gg \<in> set (groupedData props S ws lc)"
    by (auto simp: gg_def groupedData_nonempty set_sortBy)
  have l: "(size_group gg, featureCode gg) = splitKey ?key"
    by (rule group_of_entry(2) [OF e gg_def])
  have i: "storeId_row ` set (stores gg)
      = storeId ` set (groupObservations S (featureCodes props) (rateRecords props) ?key)"
    by (rule group_of_entry(4) [OF e gg_def])
  show "\<exists>g \<in> set (groupedData props S ws lc).
         (size_group g, featureCode g) = splitKey ?key \<and>
         storeId_row ` set (stores g)
           = storeId ` set (groupObservations S (featureCodes props) (rateRecords props) ?key)"
    by (intro bexI [of _ gg] conjI l i mem)
qed

theorem subject_first_then_distance_witness:
  "isSubject (hd (stores (hd (groupedData (ex_props ex_records) DEFAULT_UNIT_SIZES ex_ws
      asciiCompare)))) \<and>
   sorted (map distance (tl (stores (hd (groupedData (ex_props ex_records) DEFAULT_UNIT_SIZES
      ex_ws asciiCompare))))) \<and>
   distance (last (stores (hd (groupedData (ex_props ex_records) DEFAULT_UNIT_SIZES
      ex_ws asciiCompare)))) = 2"
proof -
  let ?P = "ex_props ex_records"
  let ?G = "groupedData ?P DEFAULT_UNIT_SIZES ex_ws asciiCompare"
  let ?rows = "stores (hd ?G)"
  have g: "hd ?G \<in> set ?G" by (simp add: ex_report)
  have rows: "?rows =
     [storeRow ?P ex_ws (10, [ex_record 10 ''10x10'' 0 (Some 150)]),
      storeRow ?P ex_ws (30, [ex_record 30 ''10x10'' 0 (Some 90)]),
      storeRow ?P ex_ws
        (20, [ex_record 20 ''10x10'' (- 2) (Some 100), ex_record 20 ''10x10'' (- 5) (Some 120)])]"
    by (simp add: ex_report ex_stores)
  have ids: "storeId_row ` set ?rows = {10, 30, 20}"
    by (simp add: rows storeId_storeRow)
  have lastrow: "last ?rows \<in> set ?rows" "storeId_row (last ?rows) = 20"
    by (simp_all add: rows storeId_storeRow)
  have ne: "?rows \<noteq> []" by (simp add: rows)
  from subject_first_then_distance [of ?P DEFAULT_UNIT_SIZES ex_ws asciiCompare, THEN conjunct1,
      THEN bspec, OF g]
  obtain key where
    k4: "storeId_row ` set ?rows
           = storeId ` set (groupObservations DEFAULT_UNIT_SIZES (featureCodes ?P) (rateRecords ?P) key)"
    and k5: "\<forall>row \<in> set ?rows. distance row = storeDistance ?P (storeId_row row)"
    and k6: "(\<exists>subject. subjectStore ?P = Some subject \<and>
               storeId_store subject
                 \<in> storeId ` set (groupObservations DEFAULT_UNIT_SIZES (featureCodes ?P)
                                    (rateRecords ?P) key))
             \<longrightarrow> isSubject (hd ?rows)"
    and k8: "\<forall>row \<in> set (tl ?rows). \<not> isSubject row"
    and k9: "sorted (map distance (filter (\<lambda>row. \<not> isSubject row) ?rows))"
    by (elim exE conjE) (rule that; blast)
  have "subjectStore ?P = Some ex_subject \<and>
        storeId_store ex_subject
          \<in> storeId ` set (groupObservations DEFAULT_UNIT_SIZES (featureCodes ?P) (rateRecords ?P) key)"
    unfolding k4 [symmetric] ids by (simp add: ex_props_sel ex_subject_def)
  with k6 have h: "isSubject (hd ?rows)" by blast
  from ne have "?rows = hd ?rows # tl ?rows" by simp
  then have "filter (\<lambda>row. \<not> isSubject row) ?rows
               = filter (\<lambda>row. \<not> isSubject row) (hd ?rows # tl ?rows)"
    by simp
  also have "\<dots> = tl ?rows"
    using h k8 by (simp add: filter_no_subject)
  finally have s: "sorted (map distance (tl ?rows))" using k9 by simp
  from k5 lastrow have "distance (last ?rows) = storeDistance ?P 20" by metis
  then have d: "distance (last ?rows) = 2" by (simp only: ex_storeDistance)
  from h s d show ?thesis by blast
qed

section \<open>Zero prices\<close>

text \<open>
  C9. The window averages of a list of records do not change when every zero
  price is removed from the records, and a window whose records have no online
  price other than zero has no asking mean; the same holds for walk-in prices and
  the in-store mean.
\<close>

theorem zero_price_as_absent:
  "calcAverages (map zeroAsAbsent records) start = calcAverages records start \<and>
   ((\<forall>r \<in> set records. inWindow start r \<longrightarrow> onlinePrice r = None \<or> onlinePrice r = Some 0)
      \<longrightarrow> asking (calcAverages records start) = None) \<and>
   ((\<forall>r \<in> set records. inWindow start r \<longrightarrow> walkInPrice r = None \<or> walkInPrice r = Some 0)
      \<longrightarrow> inStore (calcAverages records start) = None)"
proof -
  have a: "asking (calcAverages records start) = None"
    if "\<forall>r \<in> set records. inWindow start r \<longrightarrow> onlinePrice r = None \<or> onlinePrice r = Some 0"
    using that by (intro calc_asking_None) (auto simp: truthy_def)
  have b: "inStore (calcAverages records start) = None"
    if "\<forall>r \<in> set records. inWindow start r \<longrightarrow> walkInPrice r = None \<or> walkInPrice r = Some 0"
    using that by (intro calc_inStore_None) (auto simp: truthy_def)
  show ?thesis using a b calcAverages_zeroAsAbsent by blast
qed

theorem zero_price_as_absent_witness:
  "calcAverages (map zeroAsAbsent [ex_record 20 ''10x10'' 0 (Some 0)]) (- 1)
     = calcAverages [ex_record 20 ''10x10'' 0 (Some 0)] (- 1) \<and>
   asking (calcAverages [ex_record 20 ''10x10'' 0 (Some 0)] (- 1)) = None \<and>
   inStore (calcAverages [ex_record 20 ''10x10'' 0 (Some 0)] (- 1)) = None"
  using zero_price_as_absent [of "[ex_record 20 ''10x10'' 0 (Some 0)]" "- 1"]
  by (simp add: ex_record_def)

section \<open>Loading the snapshot\<close>

text \<open>
  C10. \<^verbatim>\<open>loadWizardState\<close> returns nothing and leaves the storage as it is when
  there is no snapshot, when the stored string is empty and when it does not
  parse. For a snapshot that parses it returns nothing and removes the snapshot
  when the version is not \<open>''1.0''\<close> or the snapshot is more than seven days
  (604800000 milliseconds) old; otherwise it returns the stored state and leaves
  the storage as it is.
\<close>

theorem load_wizard_state_cases:
  "(ls STORAGE_KEY = None \<longrightarrow> loadWizardState JSON_parse now ls = (None, ls)) \<and>
   (\<forall>stored. ls STORAGE_KEY = Some stored \<and> (stored = [] \<or> JSON_parse stored = None) \<longrightarrow>
      loadWizardState JSON_parse now ls = (None, ls)) \<and>
   (\<forall>stored parsed.
      ls STORAGE_KEY = Some stored \<and> stored \<noteq> [] \<and> JSON_parse stored = Some parsed \<longrightarrow>
        (version parsed \<noteq> ''1.0'' \<or> now - timestamp parsed > 604800000 \<longrightarrow>
           loadWizardState JSON_parse now ls = (None, ls(STORAGE_KEY := None))) \<and>
        (version parsed = ''1.0'' \<and> now - timestamp parsed \<le> 604800000 \<longrightarrow>
           loadWizardState JSON_parse now ls = (Some (state parsed), ls)))"
proof (cases "ls STORAGE_KEY")
  case None
  then show ?thesis by (simp add: loadWizardState_def)
next
  case (Some stored)
  show ?thesis
  proof (cases "stored = [] \<or> JSON_parse stored = None")
    case True
    with Some show ?thesis by (auto simp: loadWizardState_def)
  next
    case False
    then obtain parsed where p: "stored \<noteq> []" "JSON_parse stored = Some parsed"
      by auto
    show ?thesis
    proof (cases "version parsed = ''1.0''")
      case mismatch: False
      with Some p show ?thesis
        by (simp add: loadWizardState_def clearWizardState_def STORAGE_VERSION_def)
    next
      case current: True
      show ?thesis
      proof (cases "now - timestamp parsed > 604800000")
        case True
        with Some p current show ?thesis
          by (simp add: loadWizardState_def clearWizardState_def STORAGE_VERSION_def)
      next
        case False
        with Some p current show ?thesis
          by (simp add: loadWizardState_def STORAGE_VERSION_def)
      qed
    qed
  qed
qed

theorem load_wizard_state_cases_witness:
  "loadWizardState ex_parse 2000 (ex_ls ''A'') = (Some 7, ex_ls ''A'') \<and>
   loadWizardState ex_parse 604801001 (ex_ls ''A'') = (None, Map.empty) \<and>
   loadWizardState ex_parse 2000 (ex_ls ''B'') = (None, Map.empty) \<and>
   loadWizardState ex_parse 2000 (ex_ls ''C'') = (None, ex_ls ''C'') \<and>
   loadWizardState ex_parse 2000 Map.empty = (None, Map.empty)"
  using load_wizard_state_cases [of "ex_ls ''A''" ex_parse 2000]
        load_wizard_state_cases [of "ex_ls ''A''" ex_parse 604801001]
        load_wizard_state_cases [of "ex_ls ''B''" ex_parse 2000]
        load_wizard_state_cases [of "ex_ls ''C''" ex_parse 2000]
        load_wizard_state_cases [of Map.empty ex_parse 2000]
  by (simp add: ex_ls_def ex_parse_def)

end
